theory Spec2Isabelle
  imports Main "HOL-Library.Char_ord" "HOL-Library.List_Lexorder"
begin

section \<open>Values of the Python run time\<close>

text \<open>
  The three engines of opti2025 (\<^verbatim>\<open>cleanup.py\<close>, \<^verbatim>\<open>performance.py\<close>,
  \<^verbatim>\<open>max_performance.py\<close>) are embedded as functions over an explicit world: the
  file system, the environment, the clock, and the Windows services behind
  \<^verbatim>\<open>subprocess\<close> and \<^verbatim>\<open>winreg\<close>. Every exception the source can raise is a value.
  A Python \<^verbatim>\<open>str\<close> is a list of code points; the accented letters of the messages are
  below 256 and take one \<open>char\<close> each.
\<close>

text \<open>
  The exceptions of class \<^verbatim>\<open>OSError\<close>, with their text: \<^verbatim>\<open>FileNotFoundError\<close>,
  \<^verbatim>\<open>shutil.Error\<close> (a subclass of \<^verbatim>\<open>OSError\<close>) and every other one.
\<close>

datatype oserror = FileNotFound string | ShutilError string | OSErr string

datatype exn =
    OSError oserror
  | JSONDecodeError
  | TypeError
  | AttributeError

fun oserror_str :: "oserror \<Rightarrow> string" where
  "oserror_str (FileNotFound s) = s"
| "oserror_str (ShutilError s) = s"
| "oserror_str (OSErr s) = s"

text \<open>
  What \<^verbatim>\<open>json.loads\<close> returns. A \<open>JDict\<close> lists the items of the dict in insertion
  order. \<open>JFloat m e\<close> is the number \<open>m * 10 ^ e\<close> written with a fraction or an exponent.
\<close>

datatype json =
    JNull
  | JBool bool
  | JInt int
  | JFloat int int
  | JStr string
  | JList "json list"
  | JDict "(string \<times> json) list"

text \<open>Python's truth value of a JSON value (\<^verbatim>\<open>if not manifest\<close>).\<close>

fun truthy :: "json \<Rightarrow> bool" where
  "truthy JNull = False"
| "truthy (JBool b) = b"
| "truthy (JInt i) = (i \<noteq> 0)"
| "truthy (JFloat m e) = (m \<noteq> 0)"
| "truthy (JStr s) = (s \<noteq> [])"
| "truthy (JList xs) = (xs \<noteq> [])"
| "truthy (JDict kvs) = (kvs \<noteq> [])"

text \<open>\<^verbatim>\<open>d[k] = v\<close> on a dict: an existing key keeps its position.\<close>

fun dict_set :: "('k \<times> 'v) list \<Rightarrow> 'k \<Rightarrow> 'v \<Rightarrow> ('k \<times> 'v) list" where
  "dict_set [] k v = [(k, v)]"
| "dict_set ((k', v') # kvs) k v =
     (if k' = k then (k, v) # kvs else (k', v') # dict_set kvs k v)"

text \<open>\<^verbatim>\<open>manifest.get(k)\<close>: raises \<^verbatim>\<open>AttributeError\<close> on anything but a dict.\<close>

fun json_get :: "json \<Rightarrow> string \<Rightarrow> exn + json" where
  "json_get (JDict kvs) k = (case map_of kvs k of None \<Rightarrow> Inr JNull | Some v \<Rightarrow> Inr v)"
| "json_get _ k = Inl AttributeError"

text \<open>\<^verbatim>\<open>"_".join(parts)\<close>.\<close>

fun join_with :: "string \<Rightarrow> string list \<Rightarrow> string" where
  "join_with sep [] = []"
| "join_with sep [x] = x"
| "join_with sep (x # y # ys) = x @ sep @ join_with sep (y # ys)"

text \<open>\<^verbatim>\<open>needle in line\<close> on strings.\<close>

fun str_contains :: "string \<Rightarrow> string \<Rightarrow> bool" where
  "str_contains needle [] = (needle = [])"
| "str_contains needle (c # cs) =
     (take (length needle) (c # cs) = needle \<or> str_contains needle cs)"

text \<open>\<^verbatim>\<open>sorted(xs, reverse=True)\<close>: a stable sort, equal elements keep their order.\<close>

definition sorted_reverse :: "('a \<Rightarrow> 'k::linorder) \<Rightarrow> 'a list \<Rightarrow> 'a list" where
  "sorted_reverse key xs = rev (sort_key key (rev xs))"

section \<open>Paths\<close>

text \<open>
  A \<^verbatim>\<open>pathlib.Path\<close>: its drive (\<^verbatim>\<open>"C:"\<close>, empty on POSIX), its root (\<^verbatim>\<open>"\\"\<close> or
  \<^verbatim>\<open>"/"\<close>, empty for a relative path) and the components after the anchor.
\<close>

record path =
  drive :: string
  root :: string
  segs :: "string list"

text \<open>\<^verbatim>\<open>path.parts\<close>: the anchor, when there is one, is the first part.\<close>

definition parts :: "path \<Rightarrow> string list" where
  "parts p = (if drive p @ root p = [] then [] else [drive p @ root p]) @ segs p"

text \<open>\<^verbatim>\<open>path / name\<close> for a \<open>name\<close> that is one component.\<close>

definition child :: "path \<Rightarrow> string \<Rightarrow> path" where
  "child p n = p\<lparr>segs := segs p @ [n]\<rparr>"

definition parent :: "path \<Rightarrow> path" where
  "parent p = p\<lparr>segs := butlast (segs p)\<rparr>"

text \<open>\<^verbatim>\<open>entry.name\<close>; the entries of a directory have at least one component.\<close>

definition name :: "path \<Rightarrow> string" where
  "name p = (if segs p = [] then [] else last (segs p))"

definition same_anchor :: "path \<Rightarrow> path \<Rightarrow> bool" where
  "same_anchor p q = (drive p = drive q \<and> root p = root q)"

text \<open>\<open>p\<close> is \<open>q\<close> or lies below \<open>q\<close>.\<close>

definition within :: "path \<Rightarrow> path \<Rightarrow> bool" where
  "within p q = (same_anchor p q \<and> take (length (segs q)) (segs p) = segs q)"

text \<open>The path \<open>p\<close> below \<open>src\<close>, carried along when \<open>src\<close> is renamed to \<open>dst\<close>.\<close>

definition rebase :: "path \<Rightarrow> path \<Rightarrow> path \<Rightarrow> path" where
  "rebase src dst p = dst\<lparr>segs := segs dst @ drop (length (segs src)) (segs p)\<rparr>"

text \<open>\<^verbatim>\<open>str.replace(":", "")\<close>.\<close>

definition remove_colons :: "string \<Rightarrow> string" where
  "remove_colons s = filter (\<lambda>c. c \<noteq> CHR '':'') s"

text \<open>\<^verbatim>\<open>_backup_subdir_name\<close>, cleanup.py lines 39-42.\<close>

definition backup_subdir_name :: "path \<Rightarrow> string" where
  "backup_subdir_name temp_dir =
     (let drv = remove_colons (drive temp_dir);
          ps = [drv] @ filter (\<lambda>part. part \<noteq> drive temp_dir \<and> part \<noteq> root temp_dir)
                         (parts temp_dir)
      in join_with ''_'' (filter (\<lambda>part. part \<noteq> []) ps))"

section \<open>The world\<close>

record completed =
  returncode :: int
  stdout :: string
  stderr :: string

text \<open>What \<^verbatim>\<open>winreg.QueryValueEx\<close> hands back, by the type of the registry value.\<close>

datatype regval = RegStr string | RegInt int | RegBytes string

datatype regtype = REG_SZ | REG_DWORD

datatype node = Dir | File "json option"

text \<open>
  Every call that reaches outside the process is logged with what it returned: the
  trace gives the order of the captures, the mutation attempts and the manifest write.
\<close>

datatype event =
    Ran "string list" "oserror + completed"
  | RegOpened string nat "oserror + nat"
  | RegCreated string "oserror + nat"
  | RegQueried nat string "oserror + regval"
  | RegDeleted nat string "oserror + unit"
  | RegWritten nat string regtype regval "oserror + unit"
  | MadeDirs path "oserror + unit"
  | Moved path path "oserror + unit"
  | WroteText path json "oserror + unit"

text \<open>
  The file system is a table from paths to nodes; \<open>File (Some j)\<close> is a file whose text is
  the JSON document \<open>j\<close>, \<open>File None\<close> any other file. \<open>locked\<close> are the entries the
  operating system refuses to move, \<open>noaccess\<close> the directories for which
  \<^verbatim>\<open>os.access(d, W_OK | R_OK)\<close> is false. \<open>clock\<close> is
  \<^verbatim>\<open>datetime.now().strftime("%Y%m%d_%H%M%S")\<close>, \<open>home\<close> is \<^verbatim>\<open>Path.home()\<close>,
  \<open>osys\<close> the state of the operating system behind \<^verbatim>\<open>subprocess\<close> and \<^verbatim>\<open>winreg\<close>.
\<close>

record 'o world =
  platform :: string
  environ :: "(string \<times> string) list"
  home :: path
  clock :: string
  nodes :: "(path \<times> node) list"
  locked :: "path list"
  noaccess :: "path list"
  osys :: 'o
  trace :: "event list"

text \<open>
  The library and operating-system functions the engines call and do not define:
  \<^verbatim>\<open>pathlib\<close>'s parser and printer and the case folding of its comparisons, the string
  and \<^verbatim>\<open>re\<close> functions, \<^verbatim>\<open>subprocess.run\<close> and the \<^verbatim>\<open>winreg\<close> calls. \<open>re_search p s\<close>
  is \<^verbatim>\<open>re.search(p, s)\<close> reduced to its first group.
\<close>

record 'o host =
  Path :: "string \<Rightarrow> path"
  path_str :: "path \<Rightarrow> string"
  normcase :: "string \<Rightarrow> string"
  str_splitlines :: "string \<Rightarrow> string list"
  str_strip :: "string \<Rightarrow> string"
  str_upper :: "string \<Rightarrow> string"
  str_lower :: "string \<Rightarrow> string"
  re_search :: "string \<Rightarrow> string \<Rightarrow> string option"
  subprocess_run :: "string list \<Rightarrow> 'o \<Rightarrow> (oserror + completed) \<times> 'o"
  OpenKey :: "string \<Rightarrow> nat \<Rightarrow> 'o \<Rightarrow> (oserror + nat) \<times> 'o"
  CreateKey :: "string \<Rightarrow> 'o \<Rightarrow> (oserror + nat) \<times> 'o"
  QueryValueEx :: "nat \<Rightarrow> string \<Rightarrow> 'o \<Rightarrow> (oserror + regval) \<times> 'o"
  DeleteValue :: "nat \<Rightarrow> string \<Rightarrow> 'o \<Rightarrow> (oserror + unit) \<times> 'o"
  SetValueEx :: "nat \<Rightarrow> string \<Rightarrow> regtype \<Rightarrow> regval \<Rightarrow> 'o \<Rightarrow> (oserror + unit) \<times> 'o"

definition log :: "event \<Rightarrow> 'o world \<Rightarrow> 'o world" where
  "log e w = w\<lparr>trace := trace w @ [e]\<rparr>"

subsection \<open>File system\<close>

definition lookup :: "'o world \<Rightarrow> path \<Rightarrow> node option" where
  "lookup w p = map_of (nodes w) p"

definition exists :: "'o world \<Rightarrow> path \<Rightarrow> bool" where
  "exists w p = (lookup w p \<noteq> None)"

definition is_dir :: "'o world \<Rightarrow> path \<Rightarrow> bool" where
  "is_dir w p = (lookup w p = Some Dir)"

text \<open>\<^verbatim>\<open>os.access(p, os.W_OK | os.R_OK)\<close>.\<close>

definition access_rw :: "'o world \<Rightarrow> path \<Rightarrow> bool" where
  "access_rw w p = (exists w p \<and> p \<notin> set (noaccess w))"

definition entries :: "'o world \<Rightarrow> path \<Rightarrow> path list" where
  "entries w d = map fst (filter (\<lambda>(p, n). segs p \<noteq> [] \<and> parent p = d) (nodes w))"

text \<open>\<^verbatim>\<open>list(d.iterdir())\<close>: the listing is taken once, before the loop body runs.\<close>

definition iterdir :: "'o world \<Rightarrow> path \<Rightarrow> oserror + path list" where
  "iterdir w d =
     (if is_dir w d then Inr (entries w d)
      else if exists w d then Inl (OSErr ''Not a directory'')
      else Inl (FileNotFound ''No such file or directory''))"

text \<open>The path itself and its ancestors, the anchor first.\<close>

definition ancestors :: "path \<Rightarrow> path list" where
  "ancestors p = map (\<lambda>k. p\<lparr>segs := take k (segs p)\<rparr>) [0 ..< Suc (length (segs p))]"

fun mkdirs :: "path list \<Rightarrow> (path \<times> node) list \<Rightarrow> (path \<times> node) list option" where
  "mkdirs [] ns = Some ns"
| "mkdirs (q # qs) ns =
     (case map_of ns q of
        None \<Rightarrow> mkdirs qs (ns @ [(q, Dir)])
      | Some Dir \<Rightarrow> mkdirs qs ns
      | Some (File c) \<Rightarrow> None)"

text \<open>
  \<^verbatim>\<open>p.mkdir(parents=True, exist_ok=True)\<close>: creates the missing ancestors and \<open>p\<close>;
  raises, creating nothing, when \<open>p\<close> or an ancestor is a file.
\<close>

definition mkdir_parents :: "path \<Rightarrow> 'o world \<Rightarrow> (oserror + unit) \<times> 'o world" where
  "mkdir_parents p w =
     (case mkdirs (ancestors p) (nodes w) of
        None \<Rightarrow> (Inl (OSErr ''File exists''), log (MadeDirs p (Inl (OSErr ''File exists''))) w)
      | Some ns \<Rightarrow> (Inr (), log (MadeDirs p (Inr ())) (w\<lparr>nodes := ns\<rparr>)))"

text \<open>\<^verbatim>\<open>os.rename(src, dst)\<close> of a file or of a directory with everything below it.\<close>

definition rename_tree :: "path \<Rightarrow> path \<Rightarrow> (path \<times> node) list \<Rightarrow> (path \<times> node) list" where
  "rename_tree src dst ns =
     map (\<lambda>(p, n). if within p src then (rebase src dst p, n) else (p, n))
       (filter (\<lambda>(p, n). p \<noteq> dst) ns)"

text \<open>
  \<^verbatim>\<open>shutil.move(src, dst)\<close>. When \<open>dst\<close> is a directory the entry goes inside it, and
  \<^verbatim>\<open>shutil.Error\<close> is raised if the name is taken there. A file replaces a file at
  \<open>dst\<close>. A directory is not moved into itself or onto a file. A locked entry is
  neither renamed nor copied.
\<close>

definition move_target :: "'o world \<Rightarrow> path \<Rightarrow> path \<Rightarrow> oserror + path" where
  "move_target w src dst =
     (let real_dst = (if is_dir w dst then child dst (name src) else dst) in
      if is_dir w dst \<and> exists w real_dst
      then Inl (ShutilError ''Destination path already exists'')
      else if \<not> exists w src
      then Inl (FileNotFound ''No such file or directory'')
      else if src \<in> set (locked w)
      then Inl (OSErr ''Permission denied'')
      else if is_dir w src \<and> within real_dst src
      then Inl (ShutilError ''Cannot move a directory into itself'')
      else if \<not> is_dir w (parent real_dst)
      then Inl (FileNotFound ''No such file or directory'')
      else if exists w real_dst \<and> is_dir w src
      then Inl (OSErr ''File exists'')
      else Inr real_dst)"

definition shutil_move :: "path \<Rightarrow> path \<Rightarrow> 'o world \<Rightarrow> (oserror + unit) \<times> 'o world" where
  "shutil_move src dst w =
     (case move_target w src dst of
        Inl exc \<Rightarrow> (Inl exc, log (Moved src dst (Inl exc)) w)
      | Inr real_dst \<Rightarrow>
          (Inr (), log (Moved src dst (Inr ()))
                     (w\<lparr>nodes := rename_tree src real_dst (nodes w)\<rparr>)))"

text \<open>\<^verbatim>\<open>p.write_text(json.dumps(data))\<close>.\<close>

definition write_text :: "path \<Rightarrow> json \<Rightarrow> 'o world \<Rightarrow> (oserror + unit) \<times> 'o world" where
  "write_text p data w =
     (if \<not> is_dir w (parent p)
      then (Inl (FileNotFound ''No such file or directory''),
            log (WroteText p data (Inl (FileNotFound ''No such file or directory''))) w)
      else if is_dir w p
      then (Inl (OSErr ''Is a directory''),
            log (WroteText p data (Inl (OSErr ''Is a directory''))) w)
      else (Inr (), log (WroteText p data (Inr ()))
                      (w\<lparr>nodes := dict_set (nodes w) p (File (Some data))\<rparr>)))"

text \<open>\<^verbatim>\<open>json.loads(p.read_text())\<close>.\<close>

definition read_json :: "'o world \<Rightarrow> path \<Rightarrow> exn + json" where
  "read_json w p =
     (case lookup w p of
        None \<Rightarrow> Inl (OSError (FileNotFound ''No such file or directory''))
      | Some Dir \<Rightarrow> Inl (OSError (OSErr ''Is a directory''))
      | Some (File None) \<Rightarrow> Inl JSONDecodeError
      | Some (File (Some j)) \<Rightarrow> Inr j)"

subsection \<open>Manifest store\<close>

text \<open>\<^verbatim>\<open>_manifest_path\<close>, \<^verbatim>\<open>_write_manifest\<close>, \<^verbatim>\<open>_read_manifest\<close>: the same in the three modules.\<close>

definition manifest_path :: "path \<Rightarrow> path" where
  "manifest_path backup_root = child backup_root ''manifest.json''"

definition write_manifest :: "path \<Rightarrow> json \<Rightarrow> 'o world \<Rightarrow> (oserror + unit) \<times> 'o world" where
  "write_manifest backup_root data w = write_text (manifest_path backup_root) data w"

definition read_manifest :: "'o world \<Rightarrow> path \<Rightarrow> exn + json" where
  "read_manifest w backup_root =
     (if \<not> exists w (manifest_path backup_root) then Inr (JDict [])
      else read_json w (manifest_path backup_root))"

text \<open>
  The head of the three restore functions (cleanup.py lines 112-123, performance.py
  lines 188-199, max\_performance.py lines 263-274): the subdirectories of the profile's
  root, sorted in reverse, and the first of them. Paths of one directory compare by their
  parts, folded by \<open>normcase\<close>.
\<close>

definition sort_parts :: "'o host \<Rightarrow> path \<Rightarrow> string list" where
  "sort_parts H p = map (normcase H) (parts p)"

definition latest_session :: "'o host \<Rightarrow> 'o world \<Rightarrow> path \<Rightarrow> exn + path option" where
  "latest_session H w backups_root =
     (if \<not> exists w backups_root then Inr None
      else case iterdir w backups_root of
             Inl exc \<Rightarrow> Inl (OSError exc)
           | Inr ps \<Rightarrow>
               (case sorted_reverse (sort_parts H) (filter (is_dir w) ps) of
                  [] \<Rightarrow> Inr None
                | latest_backup # rest \<Rightarrow> Inr (Some latest_backup)))"

section \<open>Cleanup engine (cleanup.py)\<close>

record result =
  backup_dir :: "path option"
  errors :: "string list"

record CleanupResult = result +
  scanned :: int
  moved :: int
  failed :: int
  skipped :: int

definition e_acute :: string where "e_acute = [CHR 0xE9]"
definition e_grave :: string where "e_grave = [CHR 0xE8]"
definition backslash :: string where "backslash = [CHR 0x5C]"

definition env_get :: "'o world \<Rightarrow> string \<Rightarrow> string option" where
  "env_get w k = map_of (environ w) k"

text \<open>\<^verbatim>\<open>a or b\<close> on two results of \<^verbatim>\<open>os.environ.get\<close>.\<close>

definition or_else :: "string option \<Rightarrow> string option \<Rightarrow> string option" where
  "or_else a b = (case a of None \<Rightarrow> b | Some s \<Rightarrow> if s = [] then b else Some s)"

text \<open>\<^verbatim>\<open>_collect_temp_dirs\<close>, lines 21-31.\<close>

definition collect_temp_dirs :: "'o host \<Rightarrow> 'o world \<Rightarrow> path list" where
  "collect_temp_dirs H w =
     (let env_temp = or_else (env_get w ''TEMP'') (env_get w ''TMP'');
          windir = env_get w ''WINDIR''
      in (case env_temp of None \<Rightarrow> [] | Some s \<Rightarrow> if s = [] then [] else [Path H s])
         @ (case windir of None \<Rightarrow> []
            | Some s \<Rightarrow> if s = [] then [] else [child (Path H s) ''Temp'']))"

text \<open>\<^verbatim>\<open>_build_backup_root\<close>, lines 34-36.\<close>

definition build_backup_root :: "'o world \<Rightarrow> path" where
  "build_backup_root w = child (child (child (home w) ''.opti2025'') ''safe_backups'') (clock w)"

text \<open>
  \<^verbatim>\<open>p / s\<close> for any string \<open>s\<close> (the derived directory name, a key of the manifest):
  \<open>s\<close> is parsed; an anchored \<open>s\<close> replaces \<open>p\<close>, anything else is appended.
\<close>

definition joinpath :: "'o host \<Rightarrow> path \<Rightarrow> string \<Rightarrow> path" where
  "joinpath H p s =
     (let q = Path H s in
      if drive q \<noteq> [] \<and> drive q \<noteq> drive p then q
      else if root q \<noteq> [] then \<lparr>drive = drive p, root = root q, segs = segs q\<rparr>
      else p\<lparr>segs := segs p @ segs q\<rparr>)"

definition no_result :: CleanupResult where
  "no_result = \<lparr>backup_dir = None, errors = [], scanned = 0, moved = 0, failed = 0, skipped = 0\<rparr>"

text \<open>
  The inner loop of \<^verbatim>\<open>safe_cleanup\<close> (lines 85-93) and of \<^verbatim>\<open>restore_latest_backup\<close>
  (lines 148-156): the same code, over the entries listed before the first move.
\<close>

fun move_entries ::
  "'o host \<Rightarrow> path \<Rightarrow> path list \<Rightarrow> CleanupResult \<Rightarrow> 'o world \<Rightarrow> CleanupResult \<times> 'o world"
where
  "move_entries H destination [] c w = (c, w)"
| "move_entries H destination (entry # rest) c w =
     (let c1 = c\<lparr>scanned := scanned c + 1\<rparr>;
          target = child destination (name entry)
      in case shutil_move entry target w of
           (Inr u, w') \<Rightarrow> move_entries H destination rest (c1\<lparr>moved := moved c1 + 1\<rparr>) w'
         | (Inl exc, w') \<Rightarrow>
             move_entries H destination rest
               (c1\<lparr>failed := failed c1 + 1,
                   errors := errors c1 @ [path_str H entry @ '': '' @ oserror_str exc]\<rparr>) w')"

text \<open>The loop over the temporary directories, lines 71-93.\<close>

fun sweep ::
  "'o host \<Rightarrow> path \<Rightarrow> path list \<Rightarrow> (string \<times> string) list \<Rightarrow> CleanupResult \<Rightarrow> 'o world
     \<Rightarrow> (exn + (string \<times> string) list \<times> CleanupResult) \<times> 'o world"
where
  "sweep H backup_root [] mapping c w = (Inr (mapping, c), w)"
| "sweep H backup_root (temp_dir # rest) mapping c w =
     (if \<not> exists w temp_dir
      then sweep H backup_root rest mapping (c\<lparr>skipped := skipped c + 1\<rparr>) w
      else if \<not> access_rw w temp_dir
      then sweep H backup_root rest mapping
             (c\<lparr>skipped := skipped c + 1,
                errors := errors c @ [''Acc'' @ e_grave @ ''s refus'' @ e_acute @ '': ''
                                       @ path_str H temp_dir]\<rparr>) w
      else
        let destination_name = backup_subdir_name temp_dir;
            destination_root = joinpath H backup_root destination_name;
            mapping' = dict_set mapping destination_name (path_str H temp_dir)
        in case mkdir_parents destination_root w of
             (Inl exc, w1) \<Rightarrow> (Inl (OSError exc), w1)
           | (Inr u, w1) \<Rightarrow>
               (case iterdir w1 temp_dir of
                  Inl exc \<Rightarrow> (Inl (OSError exc), w1)
                | Inr es \<Rightarrow>
                    (case move_entries H destination_root es c w1 of
                       (c', w2) \<Rightarrow> sweep H backup_root rest mapping' c' w2)))"

text \<open>\<^verbatim>\<open>safe_cleanup\<close>, lines 60-108.\<close>

definition safe_cleanup :: "'o host \<Rightarrow> 'o world \<Rightarrow> (exn + CleanupResult) \<times> 'o world" where
  "safe_cleanup H w =
     (let temp_dirs = collect_temp_dirs H w;
          backup_root = build_backup_root w
      in case sweep H backup_root temp_dirs [] no_result w of
           (Inl exc, w1) \<Rightarrow> (Inl exc, w1)
         | (Inr (mapping, c), w1) \<Rightarrow>
             if moved c = 0 \<and> failed c = 0 then (Inr (c\<lparr>backup_dir := None\<rparr>), w1)
             else
               (case write_manifest backup_root (JDict (map (\<lambda>(k, v). (k, JStr v)) mapping)) w1 of
                  (Inl exc, w2) \<Rightarrow> (Inl (OSError exc), w2)
                | (Inr u, w2) \<Rightarrow> (Inr (c\<lparr>backup_dir := Some backup_root\<rparr>), w2)))"

text \<open>The loop over the items of the manifest, lines 134-156.\<close>

fun restore_items ::
  "'o host \<Rightarrow> path \<Rightarrow> (string \<times> json) list \<Rightarrow> CleanupResult \<Rightarrow> 'o world
     \<Rightarrow> (exn + CleanupResult) \<times> 'o world"
where
  "restore_items H latest_backup [] c w = (Inr c, w)"
| "restore_items H latest_backup ((backup_name, JStr destination_str) # rest) c w =
     (let destination = Path H destination_str;
          source_root = joinpath H latest_backup backup_name
      in if \<not> exists w source_root
         then restore_items H latest_backup rest (c\<lparr>skipped := skipped c + 1\<rparr>) w
         else
           case (if \<not> exists w destination then mkdir_parents destination w else (Inr (), w)) of
             (Inl exc, w1) \<Rightarrow>
               restore_items H latest_backup rest
                 (c\<lparr>skipped := skipped c + 1,
                    errors := errors c @ [''Impossible de recr'' @ e_acute @ ''er ''
                                @ path_str H destination @ '': '' @ oserror_str exc]\<rparr>) w1
           | (Inr u, w1) \<Rightarrow>
               (case iterdir w1 source_root of
                  Inl exc \<Rightarrow> (Inl (OSError exc), w1)
                | Inr es \<Rightarrow>
                    (case move_entries H destination es c w1 of
                       (c', w2) \<Rightarrow> restore_items H latest_backup rest c' w2)))"
| "restore_items H latest_backup ((backup_name, v) # rest) c w = (Inl TypeError, w)"

definition safe_backups :: "'o world \<Rightarrow> path" where
  "safe_backups w = child (child (home w) ''.opti2025'') ''safe_backups''"

definition nothing_to_restore :: "string \<Rightarrow> CleanupResult" where
  "nothing_to_restore msg =
     \<lparr>backup_dir = None, errors = [msg], scanned = 0, moved = 0, failed = 0, skipped = 1\<rparr>"

text \<open>\<^verbatim>\<open>restore_latest_backup\<close>, lines 111-165.\<close>

definition restore_latest_backup :: "'o host \<Rightarrow> 'o world \<Rightarrow> (exn + CleanupResult) \<times> 'o world" where
  "restore_latest_backup H w =
     (case latest_session H w (safe_backups w) of
        Inl exc \<Rightarrow> (Inl exc, w)
      | Inr None \<Rightarrow> (Inr (nothing_to_restore ''Aucune sauvegarde disponible.''), w)
      | Inr (Some latest_backup) \<Rightarrow>
          (case read_manifest w latest_backup of
             Inl exc \<Rightarrow> (Inl exc, w)
           | Inr manifest \<Rightarrow>
               if \<not> truthy manifest
               then (Inr (nothing_to_restore ''Manifest de sauvegarde introuvable.''), w)
               else
                 (case manifest of
                    JDict kvs \<Rightarrow>
                      (case restore_items H latest_backup kvs no_result w of
                         (Inl exc, w1) \<Rightarrow> (Inl exc, w1)
                       | (Inr c, w1) \<Rightarrow> (Inr (c\<lparr>backup_dir := Some latest_backup\<rparr>), w1))
                  | _ \<Rightarrow> (Inl AttributeError, w))))"

section \<open>Calls to the operating system\<close>

text \<open>\<^verbatim>\<open>subprocess.run(command, capture_output=True, text=True, check=False)\<close>.\<close>

definition run_command ::
  "'o host \<Rightarrow> string list \<Rightarrow> 'o world \<Rightarrow> (oserror + completed) \<times> 'o world" where
  "run_command H command w =
     (case subprocess_run H command (osys w) of
        (r, s) \<Rightarrow> (r, log (Ran command r) (w\<lparr>osys := s\<rparr>)))"

definition open_key :: "'o host \<Rightarrow> string \<Rightarrow> nat \<Rightarrow> 'o world \<Rightarrow> (oserror + nat) \<times> 'o world" where
  "open_key H sub_key access w =
     (case OpenKey H sub_key access (osys w) of
        (r, s) \<Rightarrow> (r, log (RegOpened sub_key access r) (w\<lparr>osys := s\<rparr>)))"

definition create_key :: "'o host \<Rightarrow> string \<Rightarrow> 'o world \<Rightarrow> (oserror + nat) \<times> 'o world" where
  "create_key H sub_key w =
     (case CreateKey H sub_key (osys w) of
        (r, s) \<Rightarrow> (r, log (RegCreated sub_key r) (w\<lparr>osys := s\<rparr>)))"

definition query_value ::
  "'o host \<Rightarrow> nat \<Rightarrow> string \<Rightarrow> 'o world \<Rightarrow> (oserror + regval) \<times> 'o world" where
  "query_value H key vname w =
     (case QueryValueEx H key vname (osys w) of
        (r, s) \<Rightarrow> (r, log (RegQueried key vname r) (w\<lparr>osys := s\<rparr>)))"

definition delete_value ::
  "'o host \<Rightarrow> nat \<Rightarrow> string \<Rightarrow> 'o world \<Rightarrow> (oserror + unit) \<times> 'o world" where
  "delete_value H key vname w =
     (case DeleteValue H key vname (osys w) of
        (r, s) \<Rightarrow> (r, log (RegDeleted key vname r) (w\<lparr>osys := s\<rparr>)))"

definition set_value ::
  "'o host \<Rightarrow> nat \<Rightarrow> string \<Rightarrow> regtype \<Rightarrow> regval \<Rightarrow> 'o world \<Rightarrow> (oserror + unit) \<times> 'o world"
where
  "set_value H key vname ty v w =
     (case SetValueEx H key vname ty v (osys w) of
        (r, s) \<Rightarrow> (r, log (RegWritten key vname ty v r) (w\<lparr>osys := s\<rparr>)))"

definition run_key :: string where
  "run_key = ''Software'' @ backslash @ ''Microsoft'' @ backslash @ ''Windows'' @ backslash
             @ ''CurrentVersion'' @ backslash @ ''Run''"

definition background_key :: string where
  "background_key = ''Software'' @ backslash @ ''Microsoft'' @ backslash @ ''Windows''
             @ backslash @ ''CurrentVersion'' @ backslash @ ''BackgroundAccessApplications''"

text \<open>\<^verbatim>\<open>winreg.KEY_READ | winreg.KEY_WRITE\<close> and \<^verbatim>\<open>winreg.KEY_SET_VALUE\<close>.\<close>

definition KEY_READ_WRITE :: nat where "KEY_READ_WRITE = 131103"
definition KEY_SET_VALUE :: nat where "KEY_SET_VALUE = 2"

section \<open>Performance engine (performance.py)\<close>

record toggles = result +
  onedrive_disabled :: bool
  onedrive_process_stopped :: bool

record PerformanceResult = toggles +
  background_apps_disabled :: bool

definition performance_result ::
  "bool \<Rightarrow> bool \<Rightarrow> bool \<Rightarrow> path option \<Rightarrow> string list \<Rightarrow> PerformanceResult" where
  "performance_result od bg st dir errs =
     \<lparr>backup_dir = dir, errors = errs, onedrive_disabled = od,
      onedrive_process_stopped = st, background_apps_disabled = bg\<rparr>"

text \<open>\<^verbatim>\<open>_ensure_windows\<close>, performance.py lines 23-26.\<close>

definition perf_ensure_windows :: "'o world \<Rightarrow> bool \<times> string list" where
  "perf_ensure_windows w =
     (if platform w \<noteq> ''win32''
      then (False, [''Profil Performance disponible uniquement sur Windows.''])
      else (True, []))"

definition perf_backup_root :: "'o world \<Rightarrow> path" where
  "perf_backup_root w =
     child (child (child (home w) ''.opti2025'') ''performance_backups'') (clock w)"

text \<open>
  \<^verbatim>\<open>_disable_onedrive_run\<close>, performance.py lines 49-68 and max\_performance.py
  lines 114-133 (the same text). The inner handler catches \<^verbatim>\<open>FileNotFoundError\<close> of the
  query and of the deletion; any other \<^verbatim>\<open>OSError\<close> reaches the outer one after the
  queried value was bound.
\<close>

definition disable_onedrive_run ::
  "'o host \<Rightarrow> 'o world \<Rightarrow> (bool \<times> regval option \<times> string list) \<times> 'o world" where
  "disable_onedrive_run H w =
     (let msg = (\<lambda>exc. ''Impossible de modifier l'' @ [CHR 0x27] @ ''entr'' @ e_acute
                       @ ''e OneDrive: '' @ oserror_str exc)
      in case open_key H run_key KEY_READ_WRITE w of
           (Inl exc, w1) \<Rightarrow> ((False, None, [msg exc]), w1)
         | (Inr key, w1) \<Rightarrow>
             (case query_value H key ''OneDrive'' w1 of
                (Inl (FileNotFound t), w2) \<Rightarrow> ((False, None, []), w2)
              | (Inl exc, w2) \<Rightarrow> ((False, None, [msg exc]), w2)
              | (Inr onedrive_value, w2) \<Rightarrow>
                  (case delete_value H key ''OneDrive'' w2 of
                     (Inl (FileNotFound t), w3) \<Rightarrow> ((False, None, []), w3)
                   | (Inl exc, w3) \<Rightarrow> ((False, Some onedrive_value, [msg exc]), w3)
                   | (Inr u, w3) \<Rightarrow> ((True, Some onedrive_value, []), w3))))"

text \<open>\<^verbatim>\<open>_restore_onedrive_run\<close>, performance.py lines 71-89, max\_performance.py 136-154.\<close>

definition restore_onedrive_run ::
  "'o host \<Rightarrow> string option \<Rightarrow> 'o world \<Rightarrow> string list \<times> 'o world" where
  "restore_onedrive_run H previous_value w =
     (let msg = (\<lambda>exc. ''Impossible de restaurer OneDrive: '' @ oserror_str exc)
      in case open_key H run_key KEY_SET_VALUE w of
           (Inl exc, w1) \<Rightarrow> ([msg exc], w1)
         | (Inr key, w1) \<Rightarrow>
             (case previous_value of
                None \<Rightarrow>
                  (case delete_value H key ''OneDrive'' w1 of
                     (Inl (FileNotFound t), w2) \<Rightarrow> ([], w2)
                   | (Inl exc, w2) \<Rightarrow> ([msg exc], w2)
                   | (Inr u, w2) \<Rightarrow> ([], w2))
              | Some v \<Rightarrow>
                  (case set_value H key ''OneDrive'' REG_SZ (RegStr v) w1 of
                     (Inl exc, w2) \<Rightarrow> ([msg exc], w2)
                   | (Inr u, w2) \<Rightarrow> ([], w2))))"

text \<open>\<^verbatim>\<open>_disable_background_apps\<close>, lines 92-109.\<close>

definition disable_background_apps ::
  "'o host \<Rightarrow> 'o world \<Rightarrow> (bool \<times> regval option \<times> string list) \<times> 'o world" where
  "disable_background_apps H w =
     (let msg = (\<lambda>exc. ''Impossible de r'' @ e_acute @ ''duire les apps en arri'' @ e_grave
                       @ ''re-plan: '' @ oserror_str exc);
          write = (\<lambda>key previous_value w2.
             case set_value H key ''GlobalUserDisabled'' REG_DWORD (RegInt 1) w2 of
               (Inl exc, w3) \<Rightarrow> ((False, previous_value, [msg exc]), w3)
             | (Inr u, w3) \<Rightarrow> ((True, previous_value, []), w3))
      in case create_key H background_key w of
           (Inl exc, w1) \<Rightarrow> ((False, None, [msg exc]), w1)
         | (Inr key, w1) \<Rightarrow>
             (case query_value H key ''GlobalUserDisabled'' w1 of
                (Inl (FileNotFound t), w2) \<Rightarrow> write key None w2
              | (Inl exc, w2) \<Rightarrow> ((False, None, [msg exc]), w2)
              | (Inr previous_value, w2) \<Rightarrow> write key (Some previous_value) w2))"

text \<open>\<^verbatim>\<open>_restore_background_apps\<close>, lines 112-130.\<close>

definition restore_background_apps ::
  "'o host \<Rightarrow> int option \<Rightarrow> 'o world \<Rightarrow> string list \<times> 'o world" where
  "restore_background_apps H previous_value w =
     (let msg = (\<lambda>exc. ''Impossible de restaurer les apps en arri'' @ e_grave
                       @ ''re-plan: '' @ oserror_str exc)
      in case create_key H background_key w of
           (Inl exc, w1) \<Rightarrow> ([msg exc], w1)
         | (Inr key, w1) \<Rightarrow>
             (case previous_value of
                None \<Rightarrow>
                  (case delete_value H key ''GlobalUserDisabled'' w1 of
                     (Inl (FileNotFound t), w2) \<Rightarrow> ([], w2)
                   | (Inl exc, w2) \<Rightarrow> ([msg exc], w2)
                   | (Inr u, w2) \<Rightarrow> ([], w2))
              | Some v \<Rightarrow>
                  (case set_value H key ''GlobalUserDisabled'' REG_DWORD (RegInt v) w1 of
                     (Inl exc, w2) \<Rightarrow> ([msg exc], w2)
                   | (Inr u, w2) \<Rightarrow> ([], w2))))"

definition taskkill :: "string list" where
  "taskkill = [''taskkill'', ''/IM'', ''OneDrive.exe'', ''/F'']"

text \<open>\<^verbatim>\<open>_stop_onedrive_process\<close>, performance.py lines 133-148: \<^verbatim>\<open>OSError\<close> is caught.\<close>

definition perf_stop_onedrive_process ::
  "'o host \<Rightarrow> 'o world \<Rightarrow> (bool \<times> string list) \<times> 'o world" where
  "perf_stop_onedrive_process H w =
     (case run_command H taskkill w of
        (Inl exc, w1) \<Rightarrow>
          ((False, [''Impossible d'' @ [CHR 0x27] @ ''arr'' @ [CHR 0xEA] @ ''ter OneDrive: ''
                    @ oserror_str exc]), w1)
      | (Inr completed, w1) \<Rightarrow>
          (let stopped = (returncode completed = 0)
           in ((stopped, if \<not> stopped \<and> stderr completed \<noteq> []
                         then [str_strip H (stderr completed)] else []), w1)))"

text \<open>
  A Python value on its way into \<^verbatim>\<open>json.dumps\<close>: \<^verbatim>\<open>None\<close>, a string and an integer
  are written, \<^verbatim>\<open>bytes\<close> raise \<^verbatim>\<open>TypeError\<close>.
\<close>

fun json_of_value :: "regval option \<Rightarrow> json option" where
  "json_of_value None = Some JNull"
| "json_of_value (Some (RegStr s)) = Some (JStr s)"
| "json_of_value (Some (RegInt i)) = Some (JInt i)"
| "json_of_value (Some (RegBytes b)) = None"

text \<open>\<^verbatim>\<open>apply_performance_profile\<close>, lines 151-180.\<close>

definition apply_performance_profile ::
  "'o host \<Rightarrow> 'o world \<Rightarrow> (exn + PerformanceResult) \<times> 'o world" where
  "apply_performance_profile H w =
     (case perf_ensure_windows w of
        (False, errors0) \<Rightarrow> (Inr (performance_result False False False None errors0), w)
      | (True, errors0) \<Rightarrow>
          (let backup_root = perf_backup_root w
           in case mkdir_parents backup_root w of
                (Inl exc, w1) \<Rightarrow> (Inl (OSError exc), w1)
              | (Inr u, w1) \<Rightarrow>
                  (case disable_onedrive_run H w1 of
                     ((onedrive_disabled', onedrive_value, onedrive_errors), w2) \<Rightarrow>
                  (case disable_background_apps H w2 of
                     ((background_disabled, background_previous, background_errors), w3) \<Rightarrow>
                  (case perf_stop_onedrive_process H w3 of
                     ((onedrive_stopped, stop_errors), w4) \<Rightarrow>
                  (case (json_of_value onedrive_value, json_of_value background_previous) of
                     (Some ov, Some bp) \<Rightarrow>
                       (case write_manifest backup_root
                               (JDict [(''onedrive_run_value'', ov), (''background_previous'', bp)])
                               w4 of
                          (Inl exc, w5) \<Rightarrow> (Inl (OSError exc), w5)
                        | (Inr u', w5) \<Rightarrow>
                            (Inr (performance_result onedrive_disabled' background_disabled
                                    onedrive_stopped (Some backup_root)
                                    (errors0 @ onedrive_errors @ background_errors @ stop_errors)),
                             w5))
                   | _ \<Rightarrow> (Inl TypeError, w4)))))))"

definition performance_backups :: "'o world \<Rightarrow> path" where
  "performance_backups w = child (child (home w) ''.opti2025'') ''performance_backups''"

text \<open>\<^verbatim>\<open>isinstance(v, str)\<close> and \<^verbatim>\<open>isinstance(v, int)\<close>; a Python \<^verbatim>\<open>bool\<close> is an \<^verbatim>\<open>int\<close>.\<close>

fun as_str :: "json \<Rightarrow> string option" where
  "as_str (JStr s) = Some s"
| "as_str _ = None"

fun as_int :: "json \<Rightarrow> int option" where
  "as_int (JInt i) = Some i"
| "as_int (JBool b) = Some (if b then 1 else 0)"
| "as_int _ = None"

text \<open>
  The inversion steps of \<^verbatim>\<open>restore_latest_performance\<close>, lines 204-221, for the
  manifest that was read.
\<close>

definition perf_restore_steps ::
  "'o host \<Rightarrow> path \<Rightarrow> json \<Rightarrow> 'o world \<Rightarrow> (exn + PerformanceResult) \<times> 'o world" where
  "perf_restore_steps H latest_backup manifest w =
     (case json_get manifest ''onedrive_run_value'' of
        Inl exc \<Rightarrow> (Inl exc, w)
      | Inr ov \<Rightarrow>
     (case json_get manifest ''background_previous'' of
        Inl exc \<Rightarrow> (Inl exc, w)
      | Inr bv \<Rightarrow>
     (case restore_onedrive_run H (as_str ov) w of
        (errs1, w1) \<Rightarrow>
     (case restore_background_apps H (as_int bv) w1 of
        (errs2, w2) \<Rightarrow>
          (Inr (performance_result False False False (Some latest_backup) (errs1 @ errs2)),
           w2)))))"

text \<open>\<^verbatim>\<open>restore_latest_performance\<close>, lines 183-221.\<close>

definition restore_latest_performance ::
  "'o host \<Rightarrow> 'o world \<Rightarrow> (exn + PerformanceResult) \<times> 'o world" where
  "restore_latest_performance H w =
     (case perf_ensure_windows w of
        (False, errors0) \<Rightarrow> (Inr (performance_result False False False None errors0), w)
      | (True, errors0) \<Rightarrow>
          (case latest_session H w (performance_backups w) of
             Inl exc \<Rightarrow> (Inl exc, w)
           | Inr None \<Rightarrow>
               (Inr (performance_result False False False None
                       [''Aucune sauvegarde disponible.'']), w)
           | Inr (Some latest_backup) \<Rightarrow>
               (case read_manifest w latest_backup of
                  Inl exc \<Rightarrow> (Inl exc, w)
                | Inr manifest \<Rightarrow>
                    if \<not> truthy manifest
                    then (Inr (performance_result False False False (Some latest_backup)
                                 [''Manifest introuvable.'']), w)
                    else perf_restore_steps H latest_backup manifest w)))"

section \<open>MaxPerformance engine (max\_performance.py)\<close>

record MaxPerformanceResult = toggles +
  services_disabled :: "string list"
  indexing_disabled :: bool
  power_scheme_set :: bool

definition max_result ::
  "string list \<Rightarrow> bool \<Rightarrow> bool \<Rightarrow> bool \<Rightarrow> bool \<Rightarrow> path option \<Rightarrow> string list
     \<Rightarrow> MaxPerformanceResult" where
  "max_result sd ix ps od st dir errs =
     \<lparr>backup_dir = dir, errors = errs, onedrive_disabled = od, onedrive_process_stopped = st,
      services_disabled = sd, indexing_disabled = ix, power_scheme_set = ps\<rparr>"

text \<open>The keys of \<^verbatim>\<open>SERVICE_TARGETS\<close>, lines 26-33, in their order.\<close>

definition SERVICE_TARGETS :: "string list" where
  "SERVICE_TARGETS = [''WSearch'', ''SysMain'', ''DiagTrack'']"

text \<open>\<^verbatim>\<open>_ensure_windows\<close>, max\_performance.py lines 36-39.\<close>

definition max_ensure_windows :: "'o world \<Rightarrow> bool \<times> string list" where
  "max_ensure_windows w =
     (if platform w \<noteq> ''win32''
      then (False, [''Profil Max Performance disponible uniquement sur Windows.''])
      else (True, []))"

definition max_backup_root :: "'o world \<Rightarrow> path" where
  "max_backup_root w = child (child (child (home w) ''.opti2025'') ''max_backups'') (clock w)"

text \<open>The patterns handed to \<^verbatim>\<open>re.search\<close>, character for character as in the source.\<close>

definition start_type_pattern :: string where
  "start_type_pattern = ''START_TYPE'' @ backslash @ backslash @ ''s*:'' @ backslash @ backslash
     @ ''s*'' @ backslash @ backslash @ ''d+'' @ backslash @ backslash @ ''s+('' @ backslash
     @ backslash @ ''w+)''"

definition guid_pattern :: string where
  "guid_pattern = ''GUID:'' @ backslash @ backslash @ ''s*([0-9a-fA-F-]+)''"

definition scheme_pattern :: string where
  "scheme_pattern = ''([0-9a-fA-F-]{36})''"

fun first_start_type :: "'o host \<Rightarrow> string list \<Rightarrow> string option" where
  "first_start_type H [] = None"
| "first_start_type H (line # rest) =
     (if str_contains ''START_TYPE'' line
      then (case re_search H start_type_pattern line of
              Some g \<Rightarrow> Some g
            | None \<Rightarrow> first_start_type H rest)
      else first_start_type H rest)"

text \<open>What \<^verbatim>\<open>_query_service_start_type\<close> makes of the finished command, lines 68-75.\<close>

definition start_type_of :: "'o host \<Rightarrow> completed \<Rightarrow> string option" where
  "start_type_of H result =
     (if returncode result \<noteq> 0 then None
      else first_start_type H (str_splitlines H (stdout result)))"

text \<open>\<^verbatim>\<open>_query_service_start_type\<close>, lines 66-75.\<close>

definition query_service_start_type ::
  "'o host \<Rightarrow> string \<Rightarrow> 'o world \<Rightarrow> (oserror + string option) \<times> 'o world" where
  "query_service_start_type H service_name w =
     (case run_command H [''sc.exe'', ''qc'', service_name] w of
        (Inl exc, w1) \<Rightarrow> (Inl exc, w1)
      | (Inr result, w1) \<Rightarrow> (Inr (start_type_of H result), w1))"

fun first_state :: "string list \<Rightarrow> bool option" where
  "first_state [] = None"
| "first_state (line # rest) =
     (if str_contains ''STATE'' line then Some (str_contains ''RUNNING'' line)
      else first_state rest)"

definition running_of :: "'o host \<Rightarrow> completed \<Rightarrow> bool option" where
  "running_of H result =
     (if returncode result \<noteq> 0 then None
      else first_state (str_splitlines H (stdout result)))"

text \<open>\<^verbatim>\<open>_query_service_running\<close>, lines 78-85.\<close>

definition query_service_running ::
  "'o host \<Rightarrow> string \<Rightarrow> 'o world \<Rightarrow> (oserror + bool option) \<times> 'o world" where
  "query_service_running H service_name w =
     (case run_command H [''sc.exe'', ''query'', service_name] w of
        (Inl exc, w1) \<Rightarrow> (Inl exc, w1)
      | (Inr result, w1) \<Rightarrow> (Inr (running_of H result), w1))"

text \<open>The commands that return only whether the exit code was 0.\<close>

definition run_ok :: "'o host \<Rightarrow> string list \<Rightarrow> 'o world \<Rightarrow> (oserror + bool) \<times> 'o world" where
  "run_ok H command w =
     (case run_command H command w of
        (Inl exc, w1) \<Rightarrow> (Inl exc, w1)
      | (Inr result, w1) \<Rightarrow> (Inr (returncode result = 0), w1))"

text \<open>\<^verbatim>\<open>_set_service_start_type\<close>, lines 88-90.\<close>

definition set_service_start_type ::
  "'o host \<Rightarrow> string \<Rightarrow> string \<Rightarrow> 'o world \<Rightarrow> (oserror + bool) \<times> 'o world" where
  "set_service_start_type H service_name start_type w =
     run_ok H [''sc.exe'', ''config'', service_name, ''start='' @ start_type] w"

text \<open>\<^verbatim>\<open>_normalize_start_type\<close>, lines 93-101.\<close>

definition normalize_start_type :: "'o host \<Rightarrow> string \<Rightarrow> string" where
  "normalize_start_type H start_type =
     (case map_of [(''AUTO_START'', ''auto''), (''DEMAND_START'', ''demand''),
                   (''DISABLED'', ''disabled''), (''AUTO'', ''auto''), (''DEMAND'', ''demand'')]
             (str_upper H start_type) of
        Some v \<Rightarrow> v
      | None \<Rightarrow> str_lower H start_type)"

text \<open>\<^verbatim>\<open>_stop_service\<close> and \<^verbatim>\<open>_start_service\<close>, lines 104-111.\<close>

definition stop_service :: "'o host \<Rightarrow> string \<Rightarrow> 'o world \<Rightarrow> (oserror + bool) \<times> 'o world" where
  "stop_service H service_name w = run_ok H [''sc.exe'', ''stop'', service_name] w"

definition start_service :: "'o host \<Rightarrow> string \<Rightarrow> 'o world \<Rightarrow> (oserror + bool) \<times> 'o world" where
  "start_service H service_name w = run_ok H [''sc.exe'', ''start'', service_name] w"

text \<open>
  \<^verbatim>\<open>_stop_onedrive_process\<close>, max\_performance.py lines 157-163: nothing is caught here.
\<close>

definition max_stop_onedrive_process ::
  "'o host \<Rightarrow> 'o world \<Rightarrow> (oserror + bool \<times> string list) \<times> 'o world" where
  "max_stop_onedrive_process H w =
     (case run_command H taskkill w of
        (Inl exc, w1) \<Rightarrow> (Inl exc, w1)
      | (Inr result, w1) \<Rightarrow>
          if returncode result = 0 then (Inr (True, []), w1)
          else if stderr result \<noteq> [] then (Inr (False, [str_strip H (stderr result)]), w1)
          else (Inr (False, []), w1))"

text \<open>\<^verbatim>\<open>_get_active_power_scheme\<close>, lines 166-173.\<close>

definition get_active_power_scheme ::
  "'o host \<Rightarrow> 'o world \<Rightarrow> (oserror + string option) \<times> 'o world" where
  "get_active_power_scheme H w =
     (case run_command H [''powercfg'', ''/getactivescheme''] w of
        (Inl exc, w1) \<Rightarrow> (Inl exc, w1)
      | (Inr result, w1) \<Rightarrow>
          if returncode result \<noteq> 0 then (Inr None, w1)
          else (Inr (re_search H guid_pattern (stdout result)), w1))"

fun first_scheme :: "'o host \<Rightarrow> string list \<Rightarrow> string option" where
  "first_scheme H [] = None"
| "first_scheme H (line # rest) =
     (if str_contains ''High performance'' line
         \<or> str_contains (''Performances '' @ e_acute @ ''lev'' @ e_acute @ ''es'') line
      then (case re_search H scheme_pattern line of
              Some g \<Rightarrow> Some g
            | None \<Rightarrow> first_scheme H rest)
      else first_scheme H rest)"

text \<open>\<^verbatim>\<open>_find_high_performance_scheme\<close>, lines 176-185.\<close>

definition find_high_performance_scheme ::
  "'o host \<Rightarrow> 'o world \<Rightarrow> (oserror + string option) \<times> 'o world" where
  "find_high_performance_scheme H w =
     (case run_command H [''powercfg'', ''/list''] w of
        (Inl exc, w1) \<Rightarrow> (Inl exc, w1)
      | (Inr result, w1) \<Rightarrow>
          if returncode result \<noteq> 0 then (Inr None, w1)
          else (Inr (first_scheme H (str_splitlines H (stdout result))), w1))"

text \<open>\<^verbatim>\<open>_set_power_scheme\<close>, lines 188-190.\<close>

definition set_power_scheme ::
  "'o host \<Rightarrow> string \<Rightarrow> 'o world \<Rightarrow> (oserror + bool) \<times> 'o world" where
  "set_power_scheme H scheme_guid w = run_ok H [''powercfg'', ''/setactive'', scheme_guid] w"

text \<open>What the loop over the services accumulates, lines 200-203.\<close>

record service_acc =
  service_states :: "(string \<times> json) list"
  disabled :: "string list"
  indexing :: bool
  messages :: "string list"

definition unreadable :: "string \<Rightarrow> string" where
  "unreadable service_name =
     ''Impossible de lire l'' @ [CHR 0x27] @ e_acute @ ''tat du service '' @ service_name @ ''.''"

definition undisabled :: "string \<Rightarrow> string" where
  "undisabled service_name =
     ''Impossible de d'' @ e_acute @ ''sactiver le service '' @ service_name @ ''.''"

text \<open>The body of the loop over \<^verbatim>\<open>SERVICE_TARGETS\<close>, lines 206-222.\<close>

definition disable_service ::
  "'o host \<Rightarrow> string \<Rightarrow> service_acc \<Rightarrow> 'o world \<Rightarrow> (oserror + service_acc) \<times> 'o world"
where
  "disable_service H service_name a w =
     (case query_service_start_type H service_name w of
        (Inl exc, w1) \<Rightarrow> (Inl exc, w1)
      | (Inr start_type, w1) \<Rightarrow>
     (case query_service_running H service_name w1 of
        (Inl exc, w2) \<Rightarrow> (Inl exc, w2)
      | (Inr running, w2) \<Rightarrow>
     (case (start_type, running) of
        (Some st, Some r) \<Rightarrow>
          (let a1 = a\<lparr>service_states :=
                        dict_set (service_states a) service_name
                          (JDict [(''start_type'', JStr st), (''was_running'', JBool r)])\<rparr>
           in case (if r then stop_service H service_name w2 else (Inr True, w2)) of
                (Inl exc, w3) \<Rightarrow> (Inl exc, w3)
              | (Inr stopped, w3) \<Rightarrow>
             (case set_service_start_type H service_name ''disabled'' w3 of
                (Inl exc, w4) \<Rightarrow> (Inl exc, w4)
              | (Inr True, w4) \<Rightarrow>
                  (Inr (a1\<lparr>disabled := disabled a1 @ [service_name],
                             indexing := (if service_name = ''WSearch'' then True
                                          else indexing a1)\<rparr>), w4)
              | (Inr False, w4) \<Rightarrow>
                  (Inr (a1\<lparr>messages := messages a1 @ [undisabled service_name]\<rparr>), w4)))
      | _ \<Rightarrow> (Inr (a\<lparr>messages := messages a @ [unreadable service_name]\<rparr>), w2))))"

text \<open>The loop over \<^verbatim>\<open>SERVICE_TARGETS\<close>, lines 205-222.\<close>

fun disable_services ::
  "'o host \<Rightarrow> string list \<Rightarrow> service_acc \<Rightarrow> 'o world \<Rightarrow> (oserror + service_acc) \<times> 'o world"
where
  "disable_services H [] a w = (Inr a, w)"
| "disable_services H (service_name # rest) a w =
     (case disable_service H service_name a w of
        (Inl exc, w1) \<Rightarrow> (Inl exc, w1)
      | (Inr a1, w1) \<Rightarrow> disable_services H rest a1 w1)"

text \<open>Lines 224-232: the power scheme.\<close>

definition raise_power_scheme ::
  "'o host \<Rightarrow> 'o world \<Rightarrow> (oserror + string option \<times> bool \<times> string list) \<times> 'o world" where
  "raise_power_scheme H w =
     (case get_active_power_scheme H w of
        (Inl exc, w1) \<Rightarrow> (Inl exc, w1)
      | (Inr previous_scheme, w1) \<Rightarrow>
     (case find_high_performance_scheme H w1 of
        (Inl exc, w2) \<Rightarrow> (Inl exc, w2)
      | (Inr high_perf_scheme, w2) \<Rightarrow>
     (case high_perf_scheme of
        Some (c # cs) \<Rightarrow>
          (case set_power_scheme H (c # cs) w2 of
             (Inl exc, w3) \<Rightarrow> (Inl exc, w3)
           | (Inr True, w3) \<Rightarrow> (Inr (previous_scheme, True, []), w3)
           | (Inr False, w3) \<Rightarrow>
               (Inr (previous_scheme, False,
                     [''Impossible d'' @ [CHR 0x27] @ ''activer le mode Performances ''
                      @ e_acute @ ''lev'' @ e_acute @ ''es.'']), w3))
      | _ \<Rightarrow>
          (Inr (previous_scheme, False,
                [''Mode Performances '' @ e_acute @ ''lev'' @ e_acute
                 @ ''es indisponible sur ce syst'' @ e_grave @ ''me.'']), w2))))"

definition json_of_str :: "string option \<Rightarrow> json" where
  "json_of_str v = (case v of None \<Rightarrow> JNull | Some s \<Rightarrow> JStr s)"

text \<open>\<^verbatim>\<open>apply_max_performance_profile\<close>, lines 193-255.\<close>

definition apply_max_performance_profile ::
  "'o host \<Rightarrow> 'o world \<Rightarrow> (exn + MaxPerformanceResult) \<times> 'o world" where
  "apply_max_performance_profile H w =
     (case max_ensure_windows w of
        (False, errors0) \<Rightarrow> (Inr (max_result [] False False False False None errors0), w)
      | (True, errors0) \<Rightarrow>
          (let backup_root = max_backup_root w
           in case mkdir_parents backup_root w of
                (Inl exc, w1) \<Rightarrow> (Inl (OSError exc), w1)
              | (Inr u, w1) \<Rightarrow>
             (case disable_services H SERVICE_TARGETS
                     \<lparr>service_states = [], disabled = [], indexing = False, messages = errors0\<rparr>
                     w1 of
                (Inl exc, w2) \<Rightarrow> (Inl (OSError exc), w2)
              | (Inr a, w2) \<Rightarrow>
             (case raise_power_scheme H w2 of
                (Inl exc, w3) \<Rightarrow> (Inl (OSError exc), w3)
              | (Inr (previous_scheme, power_scheme_set', power_errors), w3) \<Rightarrow>
             (case disable_onedrive_run H w3 of
                ((onedrive_disabled', onedrive_value, onedrive_errors), w4) \<Rightarrow>
             (case max_stop_onedrive_process H w4 of
                (Inl exc, w5) \<Rightarrow> (Inl (OSError exc), w5)
              | (Inr (onedrive_stopped, stop_errors), w5) \<Rightarrow>
             (case json_of_value onedrive_value of
                None \<Rightarrow> (Inl TypeError, w5)
              | Some ov \<Rightarrow>
                  (case write_manifest backup_root
                          (JDict [(''services'', JDict (service_states a)),
                                  (''power_scheme'', json_of_str previous_scheme),
                                  (''onedrive_run_value'', ov)]) w5 of
                     (Inl exc, w6) \<Rightarrow> (Inl (OSError exc), w6)
                   | (Inr u', w6) \<Rightarrow>
                       (Inr (max_result (disabled a) (indexing a) power_scheme_set'
                               onedrive_disabled' onedrive_stopped (Some backup_root)
                               (messages a @ power_errors @ onedrive_errors @ stop_errors)),
                        w6)))))))))"

definition max_backups :: "'o world \<Rightarrow> path" where
  "max_backups w = child (child (home w) ''.opti2025'') ''max_backups''"

text \<open>The loop over the recorded services, lines 283-295.\<close>

fun restore_services ::
  "'o host \<Rightarrow> (string \<times> json) list \<Rightarrow> string list \<Rightarrow> 'o world
     \<Rightarrow> (oserror + string list) \<times> 'o world"
where
  "restore_services H [] errs w = (Inr errs, w)"
| "restore_services H ((service_name, JDict state) # rest) errs w =
     (let start_type = (case map_of state ''start_type'' of None \<Rightarrow> JNull | Some v \<Rightarrow> v);
          was_running = (case map_of state ''was_running'' of None \<Rightarrow> JNull | Some v \<Rightarrow> v)
      in case (case as_str start_type of
                 None \<Rightarrow> (Inr errs, w)
               | Some st \<Rightarrow>
                   (case set_service_start_type H service_name (normalize_start_type H st) w of
                      (Inl exc, w1) \<Rightarrow> (Inl exc, w1)
                    | (Inr True, w1) \<Rightarrow> (Inr errs, w1)
                    | (Inr False, w1) \<Rightarrow>
                        (Inr (errs @ [''Impossible de restaurer le service '' @ service_name
                                      @ ''.'']), w1))) of
           (Inl exc, w1) \<Rightarrow> (Inl exc, w1)
         | (Inr errs1, w1) \<Rightarrow>
             (case (if was_running = JBool True then start_service H service_name w1
                    else (Inr True, w1)) of
                (Inl exc, w2) \<Rightarrow> (Inl exc, w2)
              | (Inr started, w2) \<Rightarrow> restore_services H rest errs1 w2))"
| "restore_services H ((service_name, state) # rest) errs w = restore_services H rest errs w"

text \<open>
  The inversion steps of \<^verbatim>\<open>restore_latest_max_performance\<close>, lines 279-315, for the
  manifest that was read.
\<close>

definition max_restore_steps ::
  "'o host \<Rightarrow> path \<Rightarrow> json \<Rightarrow> 'o world \<Rightarrow> (exn + MaxPerformanceResult) \<times> 'o world" where
  "max_restore_steps H latest_backup manifest w =
     (case json_get manifest ''services'' of
        Inl exc \<Rightarrow> (Inl exc, w)
      | Inr services_state \<Rightarrow>
     (case (case services_state of
              JDict kvs \<Rightarrow> restore_services H kvs [] w
            | _ \<Rightarrow> (Inr [], w)) of
        (Inl exc, w1) \<Rightarrow> (Inl (OSError exc), w1)
      | (Inr errs1, w1) \<Rightarrow>
     (case json_get manifest ''power_scheme'' of
        Inl exc \<Rightarrow> (Inl exc, w1)
      | Inr power_scheme \<Rightarrow>
     (case (case as_str power_scheme of
              None \<Rightarrow> (Inr errs1, w1)
            | Some guid \<Rightarrow>
                (case set_power_scheme H guid w1 of
                   (Inl exc, w2) \<Rightarrow> (Inl exc, w2)
                 | (Inr True, w2) \<Rightarrow> (Inr errs1, w2)
                 | (Inr False, w2) \<Rightarrow>
                     (Inr (errs1 @ [''Impossible de restaurer le plan d''
                                    @ [CHR 0x27] @ ''alimentation.'']), w2))) of
        (Inl exc, w2) \<Rightarrow> (Inl (OSError exc), w2)
      | (Inr errs2, w2) \<Rightarrow>
     (case json_get manifest ''onedrive_run_value'' of
        Inl exc \<Rightarrow> (Inl exc, w2)
      | Inr ov \<Rightarrow>
     (case restore_onedrive_run H (as_str ov) w2 of
        (errs3, w3) \<Rightarrow>
          (Inr (max_result [] False False False False (Some latest_backup) (errs2 @ errs3)),
           w3)))))))"

text \<open>\<^verbatim>\<open>restore_latest_max_performance\<close>, lines 258-315.\<close>

definition restore_latest_max_performance ::
  "'o host \<Rightarrow> 'o world \<Rightarrow> (exn + MaxPerformanceResult) \<times> 'o world" where
  "restore_latest_max_performance H w =
     (case max_ensure_windows w of
        (False, errors0) \<Rightarrow> (Inr (max_result [] False False False False None errors0), w)
      | (True, errors0) \<Rightarrow>
          (case latest_session H w (max_backups w) of
             Inl exc \<Rightarrow> (Inl exc, w)
           | Inr None \<Rightarrow>
               (Inr (max_result [] False False False False None
                       [''Aucune sauvegarde disponible.'']), w)
           | Inr (Some latest_backup) \<Rightarrow>
               (case read_manifest w latest_backup of
                  Inl exc \<Rightarrow> (Inl exc, w)
                | Inr manifest \<Rightarrow>
                    if \<not> truthy manifest
                    then (Inr (max_result [] False False False False (Some latest_backup)
                                 [''Manifest introuvable.'']), w)
                    else max_restore_steps H latest_backup manifest w)))"

section \<open>Reading the trace\<close>

text \<open>The events a call adds to the trace, from the world before and the world after.\<close>

definition events :: "'o world \<Rightarrow> 'o world \<Rightarrow> event list" where
  "events w w' = drop (length (trace w)) (trace w')"


text \<open>
  What an event is about: a service, the power scheme, a registry value, the OneDrive
  process, the files of the backup, or a registry key being opened.
\<close>

datatype target = Service string | Scheme | Value string | Process | Files | Handle

fun target_of :: "event \<Rightarrow> target" where
  "target_of (Ran command r) =
     (case command of
        tool # verb # svc # rest \<Rightarrow>
          if tool = ''sc.exe'' then Service svc
          else if tool = ''powercfg'' then Scheme
          else Process
      | tool # rest \<Rightarrow> if tool = ''powercfg'' then Scheme else Process
      | [] \<Rightarrow> Process)"
| "target_of (RegOpened k a r) = Handle"
| "target_of (RegCreated k r) = Handle"
| "target_of (RegQueried h n r) = Value n"
| "target_of (RegDeleted h n r) = Value n"
| "target_of (RegWritten h n t v r) = Value n"
| "target_of (MadeDirs p r) = Files"
| "target_of (Moved p q r) = Files"
| "target_of (WroteText p j r) = Files"

text \<open>
  The attempts to change a target: stopping, configuring or starting a service,
  activating a power scheme, killing the process, deleting or writing a registry value.
\<close>

fun is_attempt :: "event \<Rightarrow> bool" where
  "is_attempt (Ran command r) =
     (case command of
        tool # verb # rest \<Rightarrow>
          (tool = ''sc.exe'' \<and> (verb = ''stop'' \<or> verb = ''config'' \<or> verb = ''start''))
          \<or> (tool = ''powercfg'' \<and> verb = ''/setactive'')
          \<or> tool = ''taskkill''
      | _ \<Rightarrow> False)"
| "is_attempt (RegDeleted h n r) = True"
| "is_attempt (RegWritten h n t v r) = True"
| "is_attempt e = False"

fun is_write :: "event \<Rightarrow> bool" where
  "is_write (WroteText p j r) = True"
| "is_write e = False"

text \<open>
  What a call saw of a target before it first tried to change it: the events about the
  target, up to the first attempt.
\<close>

definition pre_mutation :: "target \<Rightarrow> event list \<Rightarrow> event list" where
  "pre_mutation t es = takeWhile (\<lambda>e. \<not> is_attempt e) (filter (\<lambda>e. target_of e = t) es)"

section \<open>A manifest with no field of an unexpected type\<close>










section \<open>Two hosts to run the engines on\<close>

text \<open>
  A POSIX host without \<^verbatim>\<open>sc.exe\<close>, \<^verbatim>\<open>powercfg\<close>, \<^verbatim>\<open>taskkill\<close> or a registry, and a small
  Windows host with services, power schemes and two registry keys. They give the
  theorems below concrete calls to be checked on.
\<close>

fun split_on :: "char \<Rightarrow> string \<Rightarrow> string list" where
  "split_on c [] = [[]]"
| "split_on c (x # xs) =
     (if x = c then [] # split_on c xs
      else case split_on c xs of [] \<Rightarrow> [[x]] | y # ys \<Rightarrow> (x # y) # ys)"

text \<open>\<^verbatim>\<open>PurePosixPath(s)\<close> for a string without a leading double slash.\<close>

definition posix_parse :: "string \<Rightarrow> path" where
  "posix_parse s =
     \<lparr>drive = [], root = (if take 1 s = ''/'' then ''/'' else []),
      segs = filter (\<lambda>c. c \<noteq> [] \<and> c \<noteq> ''.'') (split_on CHR ''/'' s)\<rparr>"

definition posix_str :: "path \<Rightarrow> string" where
  "posix_str p = (if root p = [] \<and> segs p = [] then ''.'' else root p @ join_with ''/'' (segs p))"

definition strip_spaces :: "string \<Rightarrow> string" where
  "strip_spaces s = rev (dropWhile (\<lambda>c. c = CHR '' '') (rev (dropWhile (\<lambda>c. c = CHR '' '') s)))"

definition ascii_upper :: "string \<Rightarrow> string" where
  "ascii_upper s =
     map (\<lambda>c. if CHR ''a'' \<le> c \<and> c \<le> CHR ''z'' then char_of (of_char c - (32::nat)) else c) s"

definition ascii_lower :: "string \<Rightarrow> string" where
  "ascii_lower s =
     map (\<lambda>c. if CHR ''A'' \<le> c \<and> c \<le> CHR ''Z'' then char_of (of_char c + (32::nat)) else c) s"

text \<open>A stand-in for the three searches: the last word of the text.\<close>

definition last_word :: "string \<Rightarrow> string \<Rightarrow> string option" where
  "last_word pattern s =
     (case filter (\<lambda>t. t \<noteq> []) (split_on CHR '' '' s) of
        [] \<Rightarrow> None
      | t # ts \<Rightarrow> Some (last (t # ts)))"

definition posix_host :: "unit host" where
  "posix_host =
     \<lparr>Path = posix_parse, path_str = posix_str, normcase = (\<lambda>s. s),
      str_splitlines = split_on (CHR 0x0A), str_strip = strip_spaces,
      str_upper = ascii_upper, str_lower = ascii_lower, re_search = last_word,
      subprocess_run = (\<lambda>command s. (Inl (FileNotFound ''No such file or directory''), s)),
      OpenKey = (\<lambda>k a s. (Inl (OSErr ''no registry''), s)),
      CreateKey = (\<lambda>k s. (Inl (OSErr ''no registry''), s)),
      QueryValueEx = (\<lambda>h n s. (Inl (OSErr ''no registry''), s)),
      DeleteValue = (\<lambda>h n s. (Inl (OSErr ''no registry''), s)),
      SetValueEx = (\<lambda>h n t v s. (Inl (OSErr ''no registry''), s))\<rparr>"

definition slash :: path where
  "slash = \<lparr>drive = [], root = ''/'', segs = []\<rparr>"

definition pth :: "string list \<Rightarrow> path" where
  "pth ss = \<lparr>drive = [], root = ''/'', segs = ss\<rparr>"

text \<open>
  A machine that is not Windows: \<^verbatim>\<open>TEMP=/tmp\<close> holds the files \<^verbatim>\<open>a.tmp\<close> and \<^verbatim>\<open>b.tmp\<close>.
\<close>

definition linux_box :: "unit world" where
  "linux_box =
     \<lparr>platform = ''linux'', environ = [(''TEMP'', ''/tmp'')], home = pth [''home'', ''u''],
      clock = ''20240101_000000'',
      nodes = [(slash, Dir), (pth [''home''], Dir), (pth [''home'', ''u''], Dir),
               (pth [''tmp''], Dir), (pth [''tmp'', ''a.tmp''], File None),
               (pth [''tmp'', ''b.tmp''], File None)],
      locked = [], noaccess = [], osys = (), trace = []\<rparr>"

text \<open>The state of the small Windows: services, active power scheme, registry reg_values.\<close>

record winstate =
  services :: "(string \<times> string \<times> bool) list"
  scheme :: string
  reg_values :: "((nat \<times> string) \<times> regval) list"

definition done_ok :: "string \<Rightarrow> completed" where
  "done_ok out = \<lparr>returncode = 0, stdout = out, stderr = []\<rparr>"

definition done_bad :: "int \<Rightarrow> string \<Rightarrow> completed" where
  "done_bad rc err = \<lparr>returncode = rc, stdout = [], stderr = err\<rparr>"

fun win_run :: "string list \<Rightarrow> winstate \<Rightarrow> (oserror + completed) \<times> winstate" where
  "win_run [tool, verb, svc] s =
     (if tool = ''sc.exe'' then
        (case map_of (services s) svc of
           None \<Rightarrow> (Inr (done_bad 1060 ''The specified service does not exist''), s)
         | Some (st, running) \<Rightarrow>
             if verb = ''qc'' then (Inr (done_ok (''START_TYPE : 2 '' @ st)), s)
             else if verb = ''query''
             then (Inr (done_ok (if running then ''STATE : 4 RUNNING'' else ''STATE : 1 STOPPED'')), s)
             else if verb = ''stop''
             then (Inr (done_ok []), s\<lparr>services := dict_set (services s) svc (st, False)\<rparr>)
             else if verb = ''start''
             then (Inr (done_ok []), s\<lparr>services := dict_set (services s) svc (st, True)\<rparr>)
             else (Inr (done_bad 1 []), s))
      else if tool = ''powercfg'' \<and> verb = ''/setactive''
      then (Inr (done_ok []), s\<lparr>scheme := svc\<rparr>)
      else (Inr (done_bad 1 []), s))"
| "win_run [tool, verb, svc, arg] s =
     (if tool = ''sc.exe'' \<and> verb = ''config'' then
        (case map_of (services s) svc of
           None \<Rightarrow> (Inr (done_bad 1060 ''The specified service does not exist''), s)
         | Some (st, running) \<Rightarrow>
             (Inr (done_ok []), s\<lparr>services := dict_set (services s) svc (drop 6 arg, running)\<rparr>))
      else if tool = ''taskkill'' then (Inr (done_bad 128 '' process not found ''), s)
      else (Inr (done_bad 1 []), s))"
| "win_run [tool, verb] s =
     (if tool = ''powercfg'' \<and> verb = ''/getactivescheme''
      then (Inr (done_ok (''Power Scheme GUID: '' @ scheme s)), s)
      else if tool = ''powercfg'' \<and> verb = ''/list''
      then (Inr (done_ok ''(High performance) GUID: 8c5e7fda''), s)
      else (Inr (done_bad 1 []), s))"
| "win_run command s = (Inr (done_bad 1 []), s)"

definition win_key :: "string \<Rightarrow> nat" where
  "win_key k = (if k = run_key then 1 else 2)"

definition win_host :: "winstate host" where
  "win_host =
     \<lparr>Path = posix_parse, path_str = posix_str, normcase = ascii_lower,
      str_splitlines = split_on (CHR 0x0A), str_strip = strip_spaces,
      str_upper = ascii_upper, str_lower = ascii_lower, re_search = last_word,
      subprocess_run = win_run,
      OpenKey = (\<lambda>k a s. (Inr (win_key k), s)),
      CreateKey = (\<lambda>k s. (Inr (win_key k), s)),
      QueryValueEx = (\<lambda>h n s. (case map_of (reg_values s) (h, n) of
                                  None \<Rightarrow> Inl (FileNotFound ''value not found'')
                                | Some v \<Rightarrow> Inr v, s)),
      DeleteValue = (\<lambda>h n s. (case map_of (reg_values s) (h, n) of
                                 None \<Rightarrow> (Inl (FileNotFound ''value not found''), s)
                               | Some v \<Rightarrow>
                                   (Inr (), s\<lparr>reg_values := filter (\<lambda>kv. fst kv \<noteq> (h, n)) (reg_values s)\<rparr>))),
      SetValueEx = (\<lambda>h n t v s. (Inr (), s\<lparr>reg_values := dict_set (reg_values s) (h, n) v\<rparr>))\<rparr>"

text \<open>
  A Windows machine on which \<^verbatim>\<open>WSearch\<close> runs, \<^verbatim>\<open>DiagTrack\<close> is stopped and
  \<^verbatim>\<open>SysMain\<close> is not installed, so that its queries fail.
\<close>

definition windows_box :: "winstate world" where
  "windows_box =
     \<lparr>platform = ''win32'', environ = [], home = pth [''Users'', ''u''],
      clock = ''20240102_000000'',
      nodes = [(slash, Dir), (pth [''Users''], Dir), (pth [''Users'', ''u''], Dir)],
      locked = [], noaccess = [],
      osys = \<lparr>services = [(''WSearch'', ''AUTO_START'', True),
                           (''DiagTrack'', ''DEMAND_START'', False)],
              scheme = ''381b4222'',
              reg_values = [((1, ''OneDrive''), RegStr ''C:/OneDrive.exe /background'')]\<rparr>,
      trace = []\<rparr>"

text \<open>
  Three sessions of the Cleanup profile, created out of order, none with a manifest, and
  a plain file beside them.
\<close>

definition three_sessions :: "unit world" where
  "three_sessions =
     \<lparr>platform = ''linux'', environ = [], home = pth [''home'', ''u''],
      clock = ''20240105_000000'',
      nodes = [(slash, Dir), (pth [''home''], Dir), (pth [''home'', ''u''], Dir),
               (pth [''home'', ''u'', ''.opti2025''], Dir),
               (pth [''home'', ''u'', ''.opti2025'', ''safe_backups''], Dir),
               (pth [''home'', ''u'', ''.opti2025'', ''safe_backups'', ''20240102_000000''], Dir),
               (pth [''home'', ''u'', ''.opti2025'', ''safe_backups'', ''20240101_000000''], Dir),
               (pth [''home'', ''u'', ''.opti2025'', ''safe_backups'', ''20240104_000000''],
                File None),
               (pth [''home'', ''u'', ''.opti2025'', ''safe_backups'', ''20240103_000000''], Dir)],
      locked = [], noaccess = [], osys = (), trace = []\<rparr>"




section \<open>Running the engines on the two hosts\<close>

text \<open>
  The definitions a concrete call unfolds. Together with the weak congruence rules of the
  case combinators they make the simplifier run a call the way the interpreter does: the
  scrutinee first, then the one branch taken.
\<close>

lemmas run_defs =
  log_def lookup_def exists_def is_dir_def access_rw_def entries_def iterdir_def ancestors_def
  mkdir_parents_def rename_tree_def move_target_def shutil_move_def write_text_def read_json_def
  manifest_path_def write_manifest_def read_manifest_def sort_parts_def latest_session_def
  sorted_reverse_def parts_def child_def parent_def name_def same_anchor_def within_def rebase_def
  remove_colons_def backup_subdir_name_def e_acute_def e_grave_def backslash_def
  env_get_def or_else_def collect_temp_dirs_def build_backup_root_def joinpath_def no_result_def
  safe_cleanup_def safe_backups_def nothing_to_restore_def restore_latest_backup_def
  run_command_def open_key_def create_key_def query_value_def delete_value_def set_value_def
  run_key_def background_key_def KEY_READ_WRITE_def KEY_SET_VALUE_def
  performance_result_def perf_ensure_windows_def perf_backup_root_def disable_onedrive_run_def
  restore_onedrive_run_def disable_background_apps_def restore_background_apps_def taskkill_def
  perf_stop_onedrive_process_def apply_performance_profile_def performance_backups_def
  perf_restore_steps_def restore_latest_performance_def
  max_result_def SERVICE_TARGETS_def max_ensure_windows_def max_backup_root_def
  start_type_pattern_def guid_pattern_def scheme_pattern_def start_type_of_def
  query_service_start_type_def running_of_def query_service_running_def run_ok_def
  set_service_start_type_def normalize_start_type_def stop_service_def start_service_def
  max_stop_onedrive_process_def get_active_power_scheme_def find_high_performance_scheme_def
  set_power_scheme_def unreadable_def undisabled_def disable_service_def
  raise_power_scheme_def json_of_str_def events_def pre_mutation_def
  apply_max_performance_profile_def max_backups_def max_restore_steps_def
  restore_latest_max_performance_def
  posix_parse_def posix_str_def strip_spaces_def ascii_upper_def ascii_lower_def last_word_def
  posix_host_def slash_def pth_def linux_box_def done_ok_def done_bad_def win_key_def
  win_host_def windows_box_def

lemmas run_congs =
  prod.case_cong_weak sum.case_cong_weak option.case_cong_weak list.case_cong_weak
  bool.case_cong_weak oserror.case_cong_weak json.case_cong_weak node.case_cong_weak

section \<open>Counters of the Cleanup engine\<close>






section \<open>The indexing flag of MaxPerformance\<close>

lemma disable_services_indexing:
  "disable_services H names a w = (Inr a', w') \<Longrightarrow>
   indexing a = (''WSearch'' \<in> set (disabled a)) \<Longrightarrow>
   indexing a' = (''WSearch'' \<in> set (disabled a'))"
proof (induction names arbitrary: a w)
  case Nil
  then show ?case by simp
next
  case (Cons n ns)
  from Cons.prems obtain a1 w1 where
    s: "disable_service H n a w = (Inr a1, w1)" and
    r: "disable_services H ns a1 w1 = (Inr a', w')"
    by (auto split: prod.splits sum.splits)
  from s Cons.prems(2) have "indexing a1 = (''WSearch'' \<in> set (disabled a1))"
    by (auto simp: disable_service_def Let_def
             split: prod.splits sum.splits option.splits bool.splits if_splits)
  from Cons.IH [OF r this] show ?case .
qed

text \<open>
  C10. Whenever \<^verbatim>\<open>apply_max_performance_profile\<close> returns a result, its
  \<open>indexing_disabled\<close> flag is true exactly when \<^verbatim>\<open>"WSearch"\<close> is in its
  \<open>services_disabled\<close> list.
\<close>

theorem indexing_disabled_iff_WSearch:
  assumes "apply_max_performance_profile H w = (Inr r, w')"
  shows "indexing_disabled r = (''WSearch'' \<in> set (services_disabled r))"
  using assms
  unfolding apply_max_performance_profile_def max_result_def max_ensure_windows_def
  by (auto simp: Let_def split: prod.splits sum.splits option.splits bool.splits if_splits
           dest!: disable_services_indexing)

theorem indexing_disabled_iff_WSearch_witness:
  "\<exists>r w'. apply_max_performance_profile win_host windows_box = (Inr r, w')
      \<and> indexing_disabled r \<and> ''WSearch'' \<in> set (services_disabled r)"
proof -
  have "\<exists>r w'. apply_max_performance_profile win_host windows_box = (Inr r, w')
           \<and> indexing_disabled r"
    by (simp add: run_defs Let_def cong: run_congs)
  then obtain r w' where e: "apply_max_performance_profile win_host windows_box = (Inr r, w')"
    and i: "indexing_disabled r"
    by blast
  from indexing_disabled_iff_WSearch [OF e] i e show ?thesis
    by blast
qed

section \<open>The latest session\<close>

lemma append_last_le: "(xs @ [a] \<le> xs @ [b]) = (a \<le> (b::'a::linorder))"
  by (induction xs) auto

lemma sorted_last_max:
  "sorted (map key ys) \<Longrightarrow> y \<in> set ys \<Longrightarrow> key y \<le> key (last ys)"
  by (induction ys) (auto split: if_splits)

lemma hd_sorted_reverse:
  assumes "xs \<noteq> []"
  shows "hd (sorted_reverse key xs) \<in> set xs"
    and "\<forall>x\<in>set xs. key x \<le> key (hd (sorted_reverse key xs))"
proof -
  let ?ys = "sort_key key (rev xs)"
  have ne: "?ys \<noteq> []" using assms by (metis length_0_conv length_rev length_sort)
  have hd: "hd (sorted_reverse key xs) = last ?ys"
    using ne by (simp add: sorted_reverse_def hd_rev)
  have s: "set ?ys = set xs" by simp
  show "hd (sorted_reverse key xs) \<in> set xs"
    using hd ne s last_in_set by metis
  show "\<forall>x\<in>set xs. key x \<le> key (hd (sorted_reverse key xs))"
    using sorted_last_max [of key ?ys] hd s by (metis sorted_sort_key)
qed

lemma sorted_reverse_descending:
  "sorted (rev (map key (sorted_reverse key xs)))"
  by (simp add: sorted_reverse_def rev_map)

lemma entries_child:
  "d \<in> set (entries w backups_root) \<Longrightarrow> segs d \<noteq> [] \<and> parent d = backups_root"
  by (auto simp: entries_def)

lemma parts_parent: "segs p \<noteq> [] \<Longrightarrow> parts p = parts (parent p) @ [name p]"
  by (simp add: parts_def parent_def name_def)

lemma sort_parts_siblings:
  assumes "segs p \<noteq> []" "segs q \<noteq> []" "parent p = parent q"
  shows "(sort_parts H p \<le> sort_parts H q) = (normcase H (name p) \<le> normcase H (name q))"
  using assms by (simp add: sort_parts_def parts_parent append_last_le)

lemma latest_session_cases:
  "latest_session H w backups_root =
     (if \<not> exists w backups_root then Inr None
      else if \<not> is_dir w backups_root then Inl (OSError (OSErr ''Not a directory''))
      else if filter (is_dir w) (entries w backups_root) = [] then Inr None
      else Inr (Some (hd (sorted_reverse (sort_parts H)
                           (filter (is_dir w) (entries w backups_root))))))"
proof -
  have "(sorted_reverse (sort_parts H) (filter (is_dir w) (entries w backups_root)) = [])
          = (filter (is_dir w) (entries w backups_root) = [])"
    by (metis sorted_reverse_def length_0_conv length_rev length_sort)
  then show ?thesis
    by (auto simp: latest_session_def iterdir_def split: list.splits)
qed

text \<open>
  C5. The head of every restore function lists the entries of the profile's root, keeps
  the directories, sorts them in descending order and takes the first: the result is a
  subdirectory of the root whose name is greatest among the subdirectories (names as
  folded by the path comparison of the platform, which on POSIX is the name itself). It
  is none when the root is absent and when the root is a directory without
  subdirectories. Among \<^verbatim>\<open>20240101_000000\<close>, \<^verbatim>\<open>20240102_000000\<close> and
  \<^verbatim>\<open>20240103_000000\<close> the last one is selected.
\<close>

theorem latest_session_greatest_name:
  "(\<not> exists w backups_root \<longrightarrow> latest_session H w backups_root = Inr None)
   \<and> (is_dir w backups_root \<and> filter (is_dir w) (entries w backups_root) = []
        \<longrightarrow> latest_session H w backups_root = Inr None)
   \<and> (is_dir w backups_root \<and> filter (is_dir w) (entries w backups_root) \<noteq> []
        \<longrightarrow> (\<exists>d. latest_session H w backups_root = Inr (Some d)
                 \<and> d = hd (sorted_reverse (sort_parts H)
                             (filter (is_dir w) (entries w backups_root)))
                 \<and> sorted (rev (map (sort_parts H)
                     (sorted_reverse (sort_parts H) (filter (is_dir w) (entries w backups_root)))))
                 \<and> is_dir w d \<and> segs d \<noteq> [] \<and> parent d = backups_root
                 \<and> (\<forall>d'\<in>set (entries w backups_root).
                       is_dir w d' \<longrightarrow> normcase H (name d') \<le> normcase H (name d))))
   \<and> latest_session posix_host three_sessions (safe_backups three_sessions)
       = Inr (Some (child (safe_backups three_sessions) ''20240103_000000''))"
proof (intro conjI impI)
  show "latest_session posix_host three_sessions (safe_backups three_sessions)
          = Inr (Some (child (safe_backups three_sessions) ''20240103_000000''))"
    by (simp add: run_defs three_sessions_def Let_def cong: run_congs)
next
  assume "\<not> exists w backups_root"
  then show "latest_session H w backups_root = Inr None"
    by (simp add: latest_session_cases)
next
  assume "is_dir w backups_root \<and> filter (is_dir w) (entries w backups_root) = []"
  then show "latest_session H w backups_root = Inr None"
    by (simp add: latest_session_cases exists_def is_dir_def)
next
  let ?ds = "filter (is_dir w) (entries w backups_root)"
  let ?d = "hd (sorted_reverse (sort_parts H) ?ds)"
  assume a: "is_dir w backups_root \<and> ?ds \<noteq> []"
  then have l: "latest_session H w backups_root = Inr (Some ?d)"
    by (simp add: latest_session_cases exists_def is_dir_def)
  from a have ne: "?ds \<noteq> []" by simp
  from hd_sorted_reverse(1) [OF ne] have mem: "?d \<in> set ?ds" .
  then have dir: "is_dir w ?d" and ent: "?d \<in> set (entries w backups_root)" by auto
  from entries_child [OF ent] have ch: "segs ?d \<noteq> []" "parent ?d = backups_root" by auto
  have mx: "\<forall>d'\<in>set (entries w backups_root).
              is_dir w d' \<longrightarrow> normcase H (name d') \<le> normcase H (name ?d)"
  proof (intro ballI impI)
    fix d' assume e: "d' \<in> set (entries w backups_root)" and i: "is_dir w d'"
    then have "d' \<in> set ?ds" by simp
    with hd_sorted_reverse(2) [OF ne, of "sort_parts H"]
    have "sort_parts H d' \<le> sort_parts H ?d" by blast
    moreover from entries_child [OF e] have "segs d' \<noteq> []" "parent d' = parent ?d"
      using ch by auto
    ultimately show "normcase H (name d') \<le> normcase H (name ?d)"
      using ch sort_parts_siblings by blast
  qed
  show "\<exists>d. latest_session H w backups_root = Inr (Some d)
          \<and> d = ?d
          \<and> sorted (rev (map (sort_parts H) (sorted_reverse (sort_parts H) ?ds)))
          \<and> is_dir w d \<and> segs d \<noteq> [] \<and> parent d = backups_root
          \<and> (\<forall>d'\<in>set (entries w backups_root).
                is_dir w d' \<longrightarrow> normcase H (name d') \<le> normcase H (name d))"
    using l dir ch mx sorted_reverse_descending by blast
qed

theorem latest_session_greatest_name_witness:
  "\<not> exists linux_box (safe_backups linux_box)
   \<and> latest_session posix_host linux_box (safe_backups linux_box) = Inr None
   \<and> is_dir three_sessions (safe_backups three_sessions)
   \<and> filter (is_dir three_sessions) (entries three_sessions (safe_backups three_sessions)) \<noteq> []
   \<and> (\<exists>d. latest_session posix_host three_sessions (safe_backups three_sessions) = Inr (Some d)
          \<and> is_dir three_sessions d \<and> name d = ''20240103_000000'')"
proof -
  have a: "\<not> exists linux_box (safe_backups linux_box)"
    by (simp add: run_defs cong: run_congs)
  have b: "is_dir three_sessions (safe_backups three_sessions)
           \<and> filter (is_dir three_sessions) (entries three_sessions (safe_backups three_sessions))
               \<noteq> []"
    by (simp add: run_defs three_sessions_def cong: run_congs)
  have n: "name (child (safe_backups three_sessions) ''20240103_000000'') = ''20240103_000000''"
    by (simp add: name_def child_def)
  from latest_session_greatest_name [of linux_box "safe_backups linux_box" posix_host] a
  have c: "latest_session posix_host linux_box (safe_backups linux_box) = Inr None"
    by blast
  from latest_session_greatest_name [of three_sessions "safe_backups three_sessions" posix_host] b
  obtain d where "latest_session posix_host three_sessions (safe_backups three_sessions)
                    = Inr (Some d)" "is_dir three_sessions d"
    and "latest_session posix_host three_sessions (safe_backups three_sessions)
           = Inr (Some (child (safe_backups three_sessions) ''20240103_000000''))"
    by blast
  with n a b c show ?thesis by auto
qed

section \<open>Nothing to restore\<close>



section \<open>The platform guard\<close>




section \<open>Unexpected types in a manifest\<close>
















section \<open>The trace of an apply\<close>

lemma map_of_dict_set:
  "map_of (dict_set kvs k v) k' = (if k' = k then Some v else map_of kvs k')"
  by (induction kvs) auto

lemma run_command_trace:
  "run_command H command w = (r, w') \<Longrightarrow>
   trace w' = trace w @ [Ran command r] \<and> nodes w' = nodes w"
  by (auto simp: run_command_def log_def split: prod.splits)

lemma query_service_start_type_trace:
  "query_service_start_type H n w = (Inr st, w') \<Longrightarrow>
   \<exists>c. trace w' = trace w @ [Ran [''sc.exe'', ''qc'', n] (Inr c)] \<and> st = start_type_of H c
       \<and> nodes w' = nodes w"
  by (auto simp: query_service_start_type_def split: prod.splits sum.splits
           dest!: run_command_trace)

lemma query_service_running_trace:
  "query_service_running H n w = (Inr st, w') \<Longrightarrow>
   \<exists>c. trace w' = trace w @ [Ran [''sc.exe'', ''query'', n] (Inr c)] \<and> st = running_of H c
       \<and> nodes w' = nodes w"
  by (auto simp: query_service_running_def split: prod.splits sum.splits
           dest!: run_command_trace)

lemma run_ok_trace:
  "run_ok H command w = (Inr b, w') \<Longrightarrow>
   \<exists>c. trace w' = trace w @ [Ran command (Inr c)] \<and> b = (returncode c = 0)
       \<and> nodes w' = nodes w"
  by (auto simp: run_ok_def split: prod.splits sum.splits dest!: run_command_trace)

lemma disable_service_trace:
  assumes "disable_service H n a w = (Inr a1, w1)"
  shows "\<exists>c1 c2 tl. trace w1 = trace w @ Ran [''sc.exe'', ''qc'', n] (Inr c1)
                                       # Ran [''sc.exe'', ''query'', n] (Inr c2) # tl
           \<and> nodes w1 = nodes w
           \<and> (\<forall>e\<in>set tl. is_attempt e \<and> target_of e = Service n)
           \<and> (case (start_type_of H c1, running_of H c2) of
                 (Some st, Some r) \<Rightarrow>
                    service_states a1 = dict_set (service_states a) n
                       (JDict [(''start_type'', JStr st), (''was_running'', JBool r)])
                    \<and> ((disabled a1 = disabled a @ [n] \<and> messages a1 = messages a)
                        \<or> (disabled a1 = disabled a
                            \<and> messages a1 = messages a @ [undisabled n]))
               | _ \<Rightarrow> tl = [] \<and> a1 = a\<lparr>messages := messages a @ [unreadable n]\<rparr>)"
proof -
  from assms obtain st w2 where
    q1: "query_service_start_type H n w = (Inr st, w2)"
    by (auto simp: disable_service_def split: prod.splits sum.splits)
  from assms q1 obtain rn w3 where
    q2: "query_service_running H n w2 = (Inr rn, w3)"
    by (auto simp: disable_service_def split: prod.splits sum.splits)
  from query_service_start_type_trace [OF q1] obtain c1 where
    t1: "trace w2 = trace w @ [Ran [''sc.exe'', ''qc'', n] (Inr c1)]"
    and s1: "st = start_type_of H c1" and n1: "nodes w2 = nodes w" by blast
  from query_service_running_trace [OF q2] obtain c2 where
    t2: "trace w3 = trace w2 @ [Ran [''sc.exe'', ''query'', n] (Inr c2)]"
    and s2: "rn = running_of H c2" and n2: "nodes w3 = nodes w2" by blast
  show ?thesis
  proof (cases "\<exists>s r. st = Some s \<and> rn = Some r")
    case False
    with assms q1 q2 have "a1 = a\<lparr>messages := messages a @ [unreadable n]\<rparr>" "w1 = w3"
      by (auto simp: disable_service_def split: option.splits)
    with False t1 t2 s1 s2 n1 n2 show ?thesis
      by (auto split: option.splits)
  next
    case True
    then obtain s r where sr: "st = Some s" "rn = Some r" by blast
    let ?a1 = "a\<lparr>service_states := dict_set (service_states a) n
                 (JDict [(''start_type'', JStr s), (''was_running'', JBool r)])\<rparr>"
    from assms q1 q2 sr obtain sp w4 ok where
      st: "(if r then stop_service H n w3 else (Inr True, w3)) = (Inr sp, w4)" and
      cf: "set_service_start_type H n ''disabled'' w4 = (Inr ok, w1)" and
      fin: "a1 = (if ok then ?a1\<lparr>disabled := disabled ?a1 @ [n],
                     indexing := (if n = ''WSearch'' then True else indexing ?a1)\<rparr>
                  else ?a1\<lparr>messages := messages ?a1 @ [undisabled n]\<rparr>)"
      by (auto simp: disable_service_def Let_def split: prod.splits sum.splits bool.splits)
    from st obtain tl1 where
      t3: "trace w4 = trace w3 @ tl1" "\<forall>e\<in>set tl1. is_attempt e \<and> target_of e = Service n"
        "nodes w4 = nodes w3"
      by (auto simp: stop_service_def split: if_splits dest!: run_ok_trace)
    from cf obtain c4 where
      t4: "trace w1 = trace w4 @ [Ran [''sc.exe'', ''config'', n, ''start=disabled''] (Inr c4)]"
        "nodes w1 = nodes w4"
      by (auto simp: set_service_start_type_def dest!: run_ok_trace)
    have "trace w1 = trace w @ Ran [''sc.exe'', ''qc'', n] (Inr c1)
                      # Ran [''sc.exe'', ''query'', n] (Inr c2)
                      # (tl1 @ [Ran [''sc.exe'', ''config'', n, ''start=disabled''] (Inr c4)])"
      using t1 t2 t3 t4 by simp
    moreover have "\<forall>e\<in>set (tl1 @ [Ran [''sc.exe'', ''config'', n, ''start=disabled''] (Inr c4)]).
                     is_attempt e \<and> target_of e = Service n"
      using t3 by auto
    ultimately show ?thesis
      using sr s1 s2 fin n1 n2 t3 t4 by (intro exI conjI) (assumption, auto)
  qed
qed

lemma disable_services_trace:
  assumes "disable_services H names a w = (Inr a', w')" "distinct names"
    "\<forall>n\<in>set names. n \<notin> set (disabled a) \<and> map_of (service_states a) n = None"
  shows "\<exists>es. trace w' = trace w @ es \<and> nodes w' = nodes w
     \<and> (\<forall>e\<in>set es. \<exists>n\<in>set names. target_of e = Service n)
     \<and> (\<forall>n\<in>set names. \<exists>c1 c2 tl.
           filter (\<lambda>e. target_of e = Service n) es
             = Ran [''sc.exe'', ''qc'', n] (Inr c1) # Ran [''sc.exe'', ''query'', n] (Inr c2) # tl
         \<and> (\<forall>e\<in>set tl. is_attempt e)
         \<and> (case (start_type_of H c1, running_of H c2) of
              (Some st, Some r) \<Rightarrow>
                 map_of (service_states a') n
                   = Some (JDict [(''start_type'', JStr st), (''was_running'', JBool r)])
                 \<and> (n \<in> set (disabled a') \<or> undisabled n \<in> set (messages a'))
            | _ \<Rightarrow> tl = [] \<and> n \<notin> set (disabled a') \<and> map_of (service_states a') n = None
                   \<and> unreadable n \<in> set (messages a')))
     \<and> (\<forall>k. k \<notin> set names \<longrightarrow> map_of (service_states a') k = map_of (service_states a) k)
     \<and> set (disabled a) \<subseteq> set (disabled a') \<and> set (disabled a') \<subseteq> set (disabled a) \<union> set names
     \<and> set (messages a) \<subseteq> set (messages a')"
  using assms
proof (induction names arbitrary: a w)
  case Nil
  then show ?case by simp
next
  case (Cons n rest)
  from Cons.prems(1) obtain a1 w1 where
    s: "disable_service H n a w = (Inr a1, w1)" and
    r: "disable_services H rest a1 w1 = (Inr a', w')"
    by (auto split: prod.splits sum.splits)
  from disable_service_trace [OF s] obtain c1 c2 tl where
    t: "trace w1 = trace w @ Ran [''sc.exe'', ''qc'', n] (Inr c1)
                            # Ran [''sc.exe'', ''query'', n] (Inr c2) # tl" and
    nd: "nodes w1 = nodes w" and
    tl: "\<forall>e\<in>set tl. is_attempt e \<and> target_of e = Service n" and
    oc: "(case (start_type_of H c1, running_of H c2) of
            (Some st, Some r) \<Rightarrow>
               service_states a1 = dict_set (service_states a) n
                  (JDict [(''start_type'', JStr st), (''was_running'', JBool r)])
               \<and> ((disabled a1 = disabled a @ [n] \<and> messages a1 = messages a)
                   \<or> (disabled a1 = disabled a \<and> messages a1 = messages a @ [undisabled n]))
          | _ \<Rightarrow> tl = [] \<and> a1 = a\<lparr>messages := messages a @ [unreadable n]\<rparr>)"
    by blast
  from Cons.prems(2) have dn: "n \<notin> set rest" "distinct rest" by auto
  have fr: "(\<forall>k. k \<noteq> n \<longrightarrow> map_of (service_states a1) k = map_of (service_states a) k)
            \<and> set (disabled a) \<subseteq> set (disabled a1) \<and> set (disabled a1) \<subseteq> set (disabled a) \<union> {n}
            \<and> set (messages a) \<subseteq> set (messages a1)"
    using oc by (auto simp: map_of_dict_set split: option.splits)
  have pre: "\<forall>m\<in>set rest. m \<notin> set (disabled a1) \<and> map_of (service_states a1) m = None"
    using Cons.prems(3) fr dn by auto
  from Cons.IH [OF r dn(2) pre] obtain es where
    e1: "trace w' = trace w1 @ es" "nodes w' = nodes w1" and
    e2: "\<forall>e\<in>set es. \<exists>m\<in>set rest. target_of e = Service m" and
    e3: "\<forall>m\<in>set rest. \<exists>c1 c2 tl.
           filter (\<lambda>e. target_of e = Service m) es
             = Ran [''sc.exe'', ''qc'', m] (Inr c1) # Ran [''sc.exe'', ''query'', m] (Inr c2) # tl
         \<and> (\<forall>e\<in>set tl. is_attempt e)
         \<and> (case (start_type_of H c1, running_of H c2) of
              (Some st, Some r) \<Rightarrow>
                 map_of (service_states a') m
                   = Some (JDict [(''start_type'', JStr st), (''was_running'', JBool r)])
                 \<and> (m \<in> set (disabled a') \<or> undisabled m \<in> set (messages a'))
            | _ \<Rightarrow> tl = [] \<and> m \<notin> set (disabled a') \<and> map_of (service_states a') m = None
                   \<and> unreadable m \<in> set (messages a'))" and
    e4: "\<forall>k. k \<notin> set rest \<longrightarrow> map_of (service_states a') k = map_of (service_states a1) k" and
    e5: "set (disabled a1) \<subseteq> set (disabled a')" "set (disabled a') \<subseteq> set (disabled a1) \<union> set rest"
        "set (messages a1) \<subseteq> set (messages a')"
    by blast
  let ?q1 = "Ran [''sc.exe'', ''qc'', n] (Inr c1)"
  let ?q2 = "Ran [''sc.exe'', ''query'', n] (Inr c2)"
  let ?es = "?q1 # ?q2 # tl @ es"
  have f0: "filter (\<lambda>e. target_of e = Service n) es = []"
    using e2 dn by (auto simp: filter_empty_conv)
  have fn: "filter (\<lambda>e. target_of e = Service n) ?es = ?q1 # ?q2 # tl"
    using tl f0 by (simp add: filter_id_conv)
  have fm: "\<And>m. m \<in> set rest \<Longrightarrow>
              filter (\<lambda>e. target_of e = Service m) ?es = filter (\<lambda>e. target_of e = Service m) es"
    using tl dn by (auto simp: filter_empty_conv)
  have A: "trace w' = trace w @ ?es \<and> nodes w' = nodes w"
    using t e1 nd by simp
  have B: "\<forall>e\<in>set ?es. \<exists>m\<in>set (n # rest). target_of e = Service m"
    using tl e2 by auto
  have Cn: "\<exists>c1 c2 tl.
           filter (\<lambda>e. target_of e = Service n) ?es
             = Ran [''sc.exe'', ''qc'', n] (Inr c1) # Ran [''sc.exe'', ''query'', n] (Inr c2) # tl
         \<and> (\<forall>e\<in>set tl. is_attempt e)
         \<and> (case (start_type_of H c1, running_of H c2) of
              (Some st, Some r) \<Rightarrow>
                 map_of (service_states a') n
                   = Some (JDict [(''start_type'', JStr st), (''was_running'', JBool r)])
                 \<and> (n \<in> set (disabled a') \<or> undisabled n \<in> set (messages a'))
            | _ \<Rightarrow> tl = [] \<and> n \<notin> set (disabled a') \<and> map_of (service_states a') n = None
                   \<and> unreadable n \<in> set (messages a'))"
  proof (intro exI conjI)
    show "filter (\<lambda>e. target_of e = Service n) ?es = ?q1 # ?q2 # tl" by (rule fn)
    show "\<forall>e\<in>set tl. is_attempt e" using tl by blast
    have na: "n \<notin> set (disabled a)" "map_of (service_states a) n = None"
      using Cons.prems(3) by auto
    show "(case (start_type_of H c1, running_of H c2) of
              (Some st, Some r) \<Rightarrow>
                 map_of (service_states a') n
                   = Some (JDict [(''start_type'', JStr st), (''was_running'', JBool r)])
                 \<and> (n \<in> set (disabled a') \<or> undisabled n \<in> set (messages a'))
            | _ \<Rightarrow> tl = [] \<and> n \<notin> set (disabled a') \<and> map_of (service_states a') n = None
                   \<and> unreadable n \<in> set (messages a'))"
      using oc e4 e5 dn na
      by (auto simp: map_of_dict_set split: option.splits)
  qed
  have Cm: "\<forall>m\<in>set rest. \<exists>c1 c2 tl.
           filter (\<lambda>e. target_of e = Service m) ?es
             = Ran [''sc.exe'', ''qc'', m] (Inr c1) # Ran [''sc.exe'', ''query'', m] (Inr c2) # tl
         \<and> (\<forall>e\<in>set tl. is_attempt e)
         \<and> (case (start_type_of H c1, running_of H c2) of
              (Some st, Some r) \<Rightarrow>
                 map_of (service_states a') m
                   = Some (JDict [(''start_type'', JStr st), (''was_running'', JBool r)])
                 \<and> (m \<in> set (disabled a') \<or> undisabled m \<in> set (messages a'))
            | _ \<Rightarrow> tl = [] \<and> m \<notin> set (disabled a') \<and> map_of (service_states a') m = None
                   \<and> unreadable m \<in> set (messages a'))"
    using e3 fm by simp
  have D: "(\<forall>k. k \<notin> set (n # rest) \<longrightarrow> map_of (service_states a') k = map_of (service_states a) k)
     \<and> set (disabled a) \<subseteq> set (disabled a')
     \<and> set (disabled a') \<subseteq> set (disabled a) \<union> set (n # rest)
     \<and> set (messages a) \<subseteq> set (messages a')"
    using fr e4 e5 by auto
  from A B Cn Cm D show ?case
    by (intro exI [of _ ?es]) simp
qed

lemma open_key_trace:
  "open_key H k a w = (r, w') \<Longrightarrow> trace w' = trace w @ [RegOpened k a r] \<and> nodes w' = nodes w"
  by (auto simp: open_key_def log_def split: prod.splits)

lemma create_key_trace:
  "create_key H k w = (r, w') \<Longrightarrow> trace w' = trace w @ [RegCreated k r] \<and> nodes w' = nodes w"
  by (auto simp: create_key_def log_def split: prod.splits)

lemma query_value_trace:
  "query_value H h n w = (r, w') \<Longrightarrow>
   trace w' = trace w @ [RegQueried h n r] \<and> nodes w' = nodes w"
  by (auto simp: query_value_def log_def split: prod.splits)

lemma delete_value_trace:
  "delete_value H h n w = (r, w') \<Longrightarrow>
   trace w' = trace w @ [RegDeleted h n r] \<and> nodes w' = nodes w"
  by (auto simp: delete_value_def log_def split: prod.splits)

lemma set_value_trace:
  "set_value H h n t v w = (r, w') \<Longrightarrow>
   trace w' = trace w @ [RegWritten h n t v r] \<and> nodes w' = nodes w"
  by (auto simp: set_value_def log_def split: prod.splits)

lemma mkdir_parents_trace:
  "mkdir_parents p w = (r, w') \<Longrightarrow> trace w' = trace w @ [MadeDirs p r]"
  by (auto simp: mkdir_parents_def log_def split: option.splits)

lemma write_text_trace:
  "write_text p d w = (r, w') \<Longrightarrow> trace w' = trace w @ [WroteText p d r]"
  by (auto simp: write_text_def log_def split: if_splits)

lemma write_text_lookup:
  "write_text p d w = (Inr u, w') \<Longrightarrow> lookup w' p = Some (File (Some d))"
  by (auto simp: write_text_def log_def lookup_def map_of_dict_set split: if_splits)

lemma pre_mutation_skip_left:
  "\<forall>e\<in>set xs. target_of e \<noteq> t \<Longrightarrow> pre_mutation t (xs @ ys) = pre_mutation t ys"
  by (simp add: pre_mutation_def filter_empty_conv [THEN iffD2])

lemma pre_mutation_skip_right:
  "\<forall>e\<in>set ys. target_of e \<noteq> t \<Longrightarrow> pre_mutation t (xs @ ys) = pre_mutation t xs"
  by (simp add: pre_mutation_def filter_empty_conv [THEN iffD2])

text \<open>The captured startup value is what the query returned before the deletion.\<close>

lemma disable_onedrive_run_trace:
  assumes "disable_onedrive_run H w = ((d, ov, errs), w')"
  shows "\<exists>es. trace w' = trace w @ es \<and> nodes w' = nodes w
           \<and> (\<forall>e\<in>set es. target_of e = Handle \<or> target_of e = Value ''OneDrive'')
           \<and> (\<forall>e\<in>set es. \<not> is_write e)
           \<and> (\<forall>v. ov = Some v \<longrightarrow>
                 (\<exists>h. pre_mutation (Value ''OneDrive'') es = [RegQueried h ''OneDrive'' (Inr v)]))"
proof -
  obtain r1 w1 where o: "open_key H run_key KEY_READ_WRITE w = (r1, w1)" by force
  note t1 = open_key_trace [OF o]
  show ?thesis
  proof (cases r1)
    case (Inl exc)
    with assms o t1 show ?thesis
      by (auto simp: disable_onedrive_run_def Let_def pre_mutation_def)
  next
    case (Inr h)
    obtain r2 w2 where q: "query_value H h ''OneDrive'' w1 = (r2, w2)" by force
    note t2 = query_value_trace [OF q]
    show ?thesis
    proof (cases r2)
      case (Inl exc)
      with assms o Inr q t1 t2 show ?thesis
        by (cases exc) (auto simp: disable_onedrive_run_def Let_def pre_mutation_def)
    next
      case v: (Inr v)
      obtain r3 w3 where dl: "delete_value H h ''OneDrive'' w2 = (r3, w3)" by force
      note t3 = delete_value_trace [OF dl]
      have tr: "trace w3 = trace w @ [RegOpened run_key KEY_READ_WRITE (Inr h),
                  RegQueried h ''OneDrive'' (Inr v), RegDeleted h ''OneDrive'' r3]"
        using t1 t2 t3 Inr v by simp
      have w: "w' = w3" "ov = Some v \<or> ov = None"
        using assms o Inr q v dl
        by (auto simp: disable_onedrive_run_def Let_def split: sum.splits oserror.splits)
      have pm: "pre_mutation (Value ''OneDrive'')
                  [RegOpened run_key KEY_READ_WRITE (Inr h),
                   RegQueried h ''OneDrive'' (Inr v), RegDeleted h ''OneDrive'' r3]
                = [RegQueried h ''OneDrive'' (Inr v)]"
        by (simp add: pre_mutation_def)
      show ?thesis
        using tr w pm t1 t2 t3
        by (intro exI [of _ "[RegOpened run_key KEY_READ_WRITE (Inr h),
                  RegQueried h ''OneDrive'' (Inr v), RegDeleted h ''OneDrive'' r3]"]) auto
    qed
  qed
qed

text \<open>The captured background flag is what the query returned before the write.\<close>

lemma disable_background_apps_trace:
  assumes "disable_background_apps H w = ((d, pv, errs), w')"
  shows "\<exists>es. trace w' = trace w @ es \<and> nodes w' = nodes w
           \<and> (\<forall>e\<in>set es. target_of e = Handle \<or> target_of e = Value ''GlobalUserDisabled'')
           \<and> (\<forall>e\<in>set es. \<not> is_write e)
           \<and> (\<forall>v. pv = Some v \<longrightarrow>
                 (\<exists>h. pre_mutation (Value ''GlobalUserDisabled'') es
                        = [RegQueried h ''GlobalUserDisabled'' (Inr v)]))"
proof -
  obtain r1 w1 where o: "create_key H background_key w = (r1, w1)" by force
  note t1 = create_key_trace [OF o]
  show ?thesis
  proof (cases r1)
    case (Inl exc)
    with assms o t1 show ?thesis
      by (auto simp: disable_background_apps_def Let_def pre_mutation_def)
  next
    case (Inr h)
    obtain r2 w2 where q: "query_value H h ''GlobalUserDisabled'' w1 = (r2, w2)" by force
    note t2 = query_value_trace [OF q]
    obtain r3 w3 where
      st: "set_value H h ''GlobalUserDisabled'' REG_DWORD (RegInt 1) w2 = (r3, w3)" by force
    note t3 = set_value_trace [OF st]
    let ?short = "[RegCreated background_key (Inr h), RegQueried h ''GlobalUserDisabled'' r2]"
    let ?long = "?short @ [RegWritten h ''GlobalUserDisabled'' REG_DWORD (RegInt 1) r3]"
    have pm: "\<And>v. r2 = Inr v \<Longrightarrow>
                pre_mutation (Value ''GlobalUserDisabled'') ?long
                  = [RegQueried h ''GlobalUserDisabled'' (Inr v)]"
      by (simp add: pre_mutation_def)
    consider (stop) "w' = w2" "pv = None" | (go) "w' = w3" "pv = None \<or> (\<exists>v. r2 = Inr v \<and> pv = Some v)"
      using assms o Inr q st
      by (auto simp: disable_background_apps_def Let_def split: sum.splits oserror.splits)
    then show ?thesis
    proof cases
      case stop
      then show ?thesis
        using t1 t2 Inr by (intro exI [of _ ?short]) auto
    next
      case go
      then show ?thesis
        using t1 t2 t3 Inr pm by (intro exI [of _ ?long]) auto
    qed
  qed
qed

lemma perf_stop_onedrive_process_trace:
  assumes "perf_stop_onedrive_process H w = (x, w')"
  shows "\<exists>r. trace w' = trace w @ [Ran taskkill r] \<and> nodes w' = nodes w"
  using assms
  by (auto simp: perf_stop_onedrive_process_def Let_def split: prod.splits sum.splits
           dest!: run_command_trace)

lemma max_stop_onedrive_process_trace:
  assumes "max_stop_onedrive_process H w = (x, w')"
  shows "\<exists>r. trace w' = trace w @ [Ran taskkill r] \<and> nodes w' = nodes w"
  using assms
  by (auto simp: max_stop_onedrive_process_def Let_def split: prod.splits sum.splits if_splits
           dest!: run_command_trace)

lemma taskkill_target: "target_of (Ran taskkill r) = Process \<and> \<not> is_write (Ran taskkill r)"
  by (simp add: taskkill_def)

text \<open>The captured power scheme is read from the first \<^verbatim>\<open>powercfg\<close> call, before any activation.\<close>

lemma raise_power_scheme_trace:
  assumes "raise_power_scheme H w = (Inr (previous_scheme, ok, errs), w')"
  shows "\<exists>es. trace w' = trace w @ es \<and> nodes w' = nodes w
           \<and> (\<forall>e\<in>set es. target_of e = Scheme) \<and> (\<forall>e\<in>set es. \<not> is_write e)
           \<and> (\<forall>g. previous_scheme = Some g \<longrightarrow>
                 (\<exists>c c'. pre_mutation Scheme es
                           = [Ran [''powercfg'', ''/getactivescheme''] (Inr c),
                              Ran [''powercfg'', ''/list''] (Inr c')]
                        \<and> returncode c = 0 \<and> re_search H guid_pattern (stdout c) = Some g))"
proof -
  from assms obtain ps0 w1 hp w2 where
    g: "get_active_power_scheme H w = (Inr ps0, w1)" and
    f: "find_high_performance_scheme H w1 = (Inr hp, w2)" and
    rest: "(case hp of
              Some (c # cs) \<Rightarrow>
                (case set_power_scheme H (c # cs) w2 of
                   (Inl exc, w3) \<Rightarrow> (Inl exc, w3)
                 | (Inr True, w3) \<Rightarrow> (Inr (ps0, True, []), w3)
                 | (Inr False, w3) \<Rightarrow>
                     (Inr (ps0, False,
                           [''Impossible d'' @ [CHR 0x27] @ ''activer le mode Performances ''
                            @ e_acute @ ''lev'' @ e_acute @ ''es.'']), w3))
            | _ \<Rightarrow>
                (Inr (ps0, False,
                      [''Mode Performances '' @ e_acute @ ''lev'' @ e_acute
                       @ ''es indisponible sur ce syst'' @ e_grave @ ''me.'']), w2))
           = (Inr (previous_scheme, ok, errs), w')"
    by (auto simp: raise_power_scheme_def split: prod.splits sum.splits)
  from g obtain c where
    t1: "trace w1 = trace w @ [Ran [''powercfg'', ''/getactivescheme''] (Inr c)]"
      "nodes w1 = nodes w"
    and ps: "ps0 = (if returncode c \<noteq> 0 then None
                    else re_search H guid_pattern (stdout c))"
    by (auto simp: get_active_power_scheme_def split: prod.splits sum.splits if_splits
             dest!: run_command_trace)
  from f obtain c' where
    t2: "trace w2 = trace w1 @ [Ran [''powercfg'', ''/list''] (Inr c')]" "nodes w2 = nodes w1"
    by (auto simp: find_high_performance_scheme_def split: prod.splits sum.splits if_splits
             dest!: run_command_trace)
  let ?two = "[Ran [''powercfg'', ''/getactivescheme''] (Inr c),
               Ran [''powercfg'', ''/list''] (Inr c')]"
  from rest have eq: "ps0 = previous_scheme"
    by (auto split: prod.splits sum.splits option.splits list.splits bool.splits)
  from rest
  have "w' = w2 \<or> (\<exists>guid c''. trace w' = trace w2 @ [Ran [''powercfg'', ''/setactive'', guid] (Inr c'')]
                         \<and> nodes w' = nodes w2)"
    by (auto simp: set_power_scheme_def
             split: prod.splits sum.splits option.splits list.splits bool.splits
             dest!: run_ok_trace)
  then show ?thesis
  proof
    assume "w' = w2"
    with t1 t2 ps eq show ?thesis
      by (intro exI [of _ ?two]) (auto simp: pre_mutation_def split: if_splits)
  next
    assume "\<exists>guid c''. trace w' = trace w2 @ [Ran [''powercfg'', ''/setactive'', guid] (Inr c'')]
                         \<and> nodes w' = nodes w2"
    then obtain guid c'' where
      t3: "trace w' = trace w2 @ [Ran [''powercfg'', ''/setactive'', guid] (Inr c'')]"
        "nodes w' = nodes w2" by blast
    with t1 t2 ps eq show ?thesis
      by (intro exI [of _ "?two @ [Ran [''powercfg'', ''/setactive'', guid] (Inr c'')]"])
         (auto simp: pre_mutation_def split: if_splits)
  qed
qed

lemma events_append: "trace w' = trace w @ es \<Longrightarrow> events w w' = es"
  by (simp add: events_def)

lemma apply_max_decomposed:
  assumes "apply_max_performance_profile H w = (Inr r, w')" and pw: "platform w = ''win32''"
  shows "(\<exists>a es_s es_p es_o rk previous ok perrs od ovr oerrs stopped serrs ov.
       events w w' = MadeDirs (max_backup_root w) (Inr ()) # es_s @ es_p @ es_o
                      @ [Ran taskkill rk,
                         WroteText (manifest_path (max_backup_root w))
                           (JDict [(''services'', JDict (service_states a)),
                                   (''power_scheme'', json_of_str previous),
                                   (''onedrive_run_value'', ov)]) (Inr ())]
     \<and> lookup w' (manifest_path (max_backup_root w))
         = Some (File (Some (JDict [(''services'', JDict (service_states a)),
                                    (''power_scheme'', json_of_str previous),
                                    (''onedrive_run_value'', ov)])))
     \<and> r = max_result (disabled a) (indexing a) ok od stopped (Some (max_backup_root w))
               (messages a @ perrs @ oerrs @ serrs)
     \<and> json_of_value ovr = Some ov
     \<and> (\<exists>w1 w2. disable_services H SERVICE_TARGETS
                    \<lparr>service_states = [], disabled = [], indexing = False, messages = []\<rparr> w1
                  = (Inr a, w2) \<and> trace w2 = trace w1 @ es_s)
     \<and> (\<exists>w2 w3. raise_power_scheme H w2 = (Inr (previous, ok, perrs), w3)
                  \<and> trace w3 = trace w2 @ es_p)
     \<and> (\<exists>w3 w4. disable_onedrive_run H w3 = ((od, ovr, oerrs), w4)
                  \<and> trace w4 = trace w3 @ es_o))"
proof -
  let ?root = "max_backup_root w"
  let ?a0 = "\<lparr>service_states = [], disabled = [], indexing = False, messages = []\<rparr>"
  from pw have ew: "max_ensure_windows w = (True, [])"
    by (simp add: max_ensure_windows_def)
  from assms ew obtain w1 where
    m: "mkdir_parents ?root w = (Inr (), w1)"
    by (auto simp: apply_max_performance_profile_def Let_def split: prod.splits sum.splits)
  from assms ew m obtain a w2 where
    ds: "disable_services H SERVICE_TARGETS ?a0 w1 = (Inr a, w2)"
    by (auto simp: apply_max_performance_profile_def Let_def split: prod.splits sum.splits)
  from assms ew m ds obtain previous ok perrs w3 where
    rp: "raise_power_scheme H w2 = (Inr (previous, ok, perrs), w3)"
    by (auto simp: apply_max_performance_profile_def Let_def split: prod.splits sum.splits)
  obtain od ovr oerrs w4 where
    dr: "disable_onedrive_run H w3 = ((od, ovr, oerrs), w4)"
    by (cases "disable_onedrive_run H w3") auto
  from assms ew m ds rp dr obtain stopped serrs w5 where
    sp: "max_stop_onedrive_process H w4 = (Inr (stopped, serrs), w5)"
    by (auto simp: apply_max_performance_profile_def Let_def split: prod.splits sum.splits)
  let ?M = "\<lambda>ov. JDict [(''services'', JDict (service_states a)),
                         (''power_scheme'', json_of_str previous),
                         (''onedrive_run_value'', ov)]"
  from assms ew m ds rp dr sp obtain ov where
    jv: "json_of_value ovr = Some ov" and
    wm: "write_manifest ?root (?M ov) w5 = (Inr (), w')" and
    res: "r = max_result (disabled a) (indexing a) ok od stopped (Some ?root)
                (messages a @ perrs @ oerrs @ serrs)"
    by (auto simp: apply_max_performance_profile_def Let_def
             split: prod.splits sum.splits option.splits)
  from mkdir_parents_trace [OF m] have t1: "trace w1 = trace w @ [MadeDirs ?root (Inr ())]" .
  from disable_services_trace [OF ds] obtain es_s where
    t2: "trace w2 = trace w1 @ es_s"
    by (auto simp: SERVICE_TARGETS_def)
  from raise_power_scheme_trace [OF rp] obtain es_p where
    t3: "trace w3 = trace w2 @ es_p" by blast
  from disable_onedrive_run_trace [OF dr] obtain es_o where
    t4: "trace w4 = trace w3 @ es_o" by blast
  from max_stop_onedrive_process_trace [OF sp] obtain rk where
    t5: "trace w5 = trace w4 @ [Ran taskkill rk]" by blast
  from wm have t6: "trace w' = trace w5 @ [WroteText (manifest_path ?root) (?M ov) (Inr ())]"
    and lk: "lookup w' (manifest_path ?root) = Some (File (Some (?M ov)))"
    by (auto simp: write_manifest_def dest: write_text_trace write_text_lookup)
  have ev: "events w w' = MadeDirs ?root (Inr ()) # es_s @ es_p @ es_o
                      @ [Ran taskkill rk, WroteText (manifest_path ?root) (?M ov) (Inr ())]"
    using t1 t2 t3 t4 t5 t6 by (intro events_append) simp
  show ?thesis
    using ev lk res jv ds t2 rp t3 dr t4 by blast
qed

section \<open>A service whose query fails\<close>







section \<open>The manifest holds what was seen before the change\<close>

lemma dict_set_keys: "fst ` set (dict_set kvs k v) = insert k (fst ` set kvs)"
proof -
  have "dom (map_of (dict_set kvs k v)) = insert k (dom (map_of kvs))"
    by (auto simp: map_of_dict_set dom_def)
  then show ?thesis by (simp add: dom_map_of_conv_image_fst)
qed

lemma dict_set_distinct:
  "distinct (map fst kvs) \<Longrightarrow> distinct (map fst (dict_set kvs k v))"
  by (induction kvs) (auto simp: dict_set_keys)

lemma disable_service_distinct:
  "disable_service H n a w = (Inr a1, w1) \<Longrightarrow> distinct (map fst (service_states a)) \<Longrightarrow>
   distinct (map fst (service_states a1))"
  by (auto simp: disable_service_def Let_def dict_set_distinct
           split: prod.splits sum.splits option.splits bool.splits if_splits)

lemma disable_services_distinct:
  "disable_services H names a w = (Inr a', w') \<Longrightarrow> distinct (map fst (service_states a)) \<Longrightarrow>
   distinct (map fst (service_states a'))"
proof (induction names arbitrary: a w)
  case Nil
  then show ?case by simp
next
  case (Cons n rest)
  from Cons.prems(1) obtain a1 w1 where
    s: "disable_service H n a w = (Inr a1, w1)" and
    r: "disable_services H rest a1 w1 = (Inr a', w')"
    by (auto split: prod.splits sum.splits)
  from Cons.IH [OF r disable_service_distinct [OF s Cons.prems(2)]] show ?case .
qed

lemma takeWhile_attempts:
  "\<forall>e\<in>set xs. is_attempt e \<Longrightarrow> takeWhile (\<lambda>e. \<not> is_attempt e) xs = []"
  by (cases xs) auto

lemma apply_performance_decomposed:
  assumes "apply_performance_profile H w = (Inr r, w')" and pw: "platform w = ''win32''"
  shows "\<exists>es_o es_b rk od ovr oerrs bd bpr berrs ov bp.
       events w w' = MadeDirs (perf_backup_root w) (Inr ()) # es_o @ es_b
                      @ [Ran taskkill rk,
                         WroteText (manifest_path (perf_backup_root w))
                           (JDict [(''onedrive_run_value'', ov),
                                   (''background_previous'', bp)]) (Inr ())]
     \<and> json_of_value ovr = Some ov \<and> json_of_value bpr = Some bp
     \<and> backup_dir r = Some (perf_backup_root w)
     \<and> (\<exists>w1 w2. disable_onedrive_run H w1 = ((od, ovr, oerrs), w2)
                  \<and> trace w2 = trace w1 @ es_o)
     \<and> (\<exists>w2 w3. disable_background_apps H w2 = ((bd, bpr, berrs), w3)
                  \<and> trace w3 = trace w2 @ es_b)"
proof -
  let ?root = "perf_backup_root w"
  from pw have ew: "perf_ensure_windows w = (True, [])"
    by (simp add: perf_ensure_windows_def)
  from assms ew obtain w1 where
    m: "mkdir_parents ?root w = (Inr (), w1)"
    by (auto simp: apply_performance_profile_def Let_def split: prod.splits sum.splits)
  obtain od ovr oerrs w2 where
    dr: "disable_onedrive_run H w1 = ((od, ovr, oerrs), w2)"
    by (cases "disable_onedrive_run H w1") auto
  obtain bd bpr berrs w3 where
    db: "disable_background_apps H w2 = ((bd, bpr, berrs), w3)"
    by (cases "disable_background_apps H w2") auto
  obtain st serrs w4 where
    sp: "perf_stop_onedrive_process H w3 = ((st, serrs), w4)"
    by (cases "perf_stop_onedrive_process H w3") auto
  from assms ew m dr db sp obtain ov bp where
    jv: "json_of_value ovr = Some ov" "json_of_value bpr = Some bp" and
    wm: "write_manifest ?root (JDict [(''onedrive_run_value'', ov),
                                      (''background_previous'', bp)]) w4 = (Inr (), w')" and
    res: "backup_dir r = Some ?root"
    by (auto simp: apply_performance_profile_def Let_def performance_result_def
             split: prod.splits sum.splits option.splits)
  from mkdir_parents_trace [OF m] have t1: "trace w1 = trace w @ [MadeDirs ?root (Inr ())]" .
  from disable_onedrive_run_trace [OF dr] obtain es_o where
    t2: "trace w2 = trace w1 @ es_o" by blast
  from disable_background_apps_trace [OF db] obtain es_b where
    t3: "trace w3 = trace w2 @ es_b" by blast
  from perf_stop_onedrive_process_trace [OF sp] obtain rk where
    t4: "trace w4 = trace w3 @ [Ran taskkill rk]" by blast
  from wm have t5: "trace w' = trace w4 @ [WroteText (manifest_path ?root)
                      (JDict [(''onedrive_run_value'', ov), (''background_previous'', bp)])
                      (Inr ())]"
    by (auto simp: write_manifest_def dest: write_text_trace)
  have ev: "events w w' = MadeDirs ?root (Inr ()) # es_o @ es_b
                      @ [Ran taskkill rk,
                         WroteText (manifest_path ?root)
                           (JDict [(''onedrive_run_value'', ov),
                                   (''background_previous'', bp)]) (Inr ())]"
    using t1 t2 t3 t4 t5 by (intro events_append) simp
  show ?thesis
    using ev jv res dr t2 db t3 by blast
qed

lemma json_of_value_null:
  "json_of_value x = Some j \<Longrightarrow> j = JNull \<or> (\<exists>v. x = Some v \<and> json_of_value (Some v) = Some j)"
  by (cases x) auto

lemma performance_manifest:
  assumes ap: "apply_performance_profile H w = (Inr r, w')" and pw: "platform w = ''win32''"
  shows "\<exists>es ov bp.
       events w w' = es @ [WroteText (manifest_path (perf_backup_root w))
                             (JDict [(''onedrive_run_value'', ov),
                                     (''background_previous'', bp)]) (Inr ())]
     \<and> (\<forall>e\<in>set es. \<not> is_write e)
     \<and> (ov = JNull
          \<or> (\<exists>h v. pre_mutation (Value ''OneDrive'') es = [RegQueried h ''OneDrive'' (Inr v)]
                   \<and> json_of_value (Some v) = Some ov))
     \<and> (bp = JNull
          \<or> (\<exists>h v. pre_mutation (Value ''GlobalUserDisabled'') es
                      = [RegQueried h ''GlobalUserDisabled'' (Inr v)]
                   \<and> json_of_value (Some v) = Some bp))"
proof -
  let ?root = "perf_backup_root w"
  from apply_performance_decomposed [OF ap pw] obtain es_o es_b rk od ovr oerrs bd bpr berrs
      ov bp w1 w2 w2' w3 where
    ev: "events w w' = MadeDirs ?root (Inr ()) # es_o @ es_b
                      @ [Ran taskkill rk,
                         WroteText (manifest_path ?root)
                           (JDict [(''onedrive_run_value'', ov),
                                   (''background_previous'', bp)]) (Inr ())]" and
    jv: "json_of_value ovr = Some ov" "json_of_value bpr = Some bp" and
    dr: "disable_onedrive_run H w1 = ((od, ovr, oerrs), w2)" "trace w2 = trace w1 @ es_o" and
    db: "disable_background_apps H w2' = ((bd, bpr, berrs), w3)" "trace w3 = trace w2' @ es_b"
    by blast
  from disable_onedrive_run_trace [OF dr(1)] dr(2) have
    o1: "\<forall>e\<in>set es_o. target_of e = Handle \<or> target_of e = Value ''OneDrive''" and
    o2: "\<forall>e\<in>set es_o. \<not> is_write e" and
    o3: "\<forall>v. ovr = Some v \<longrightarrow>
           (\<exists>h. pre_mutation (Value ''OneDrive'') es_o = [RegQueried h ''OneDrive'' (Inr v)])"
    by auto
  from disable_background_apps_trace [OF db(1)] db(2) have
    b1: "\<forall>e\<in>set es_b. target_of e = Handle \<or> target_of e = Value ''GlobalUserDisabled''" and
    b2: "\<forall>e\<in>set es_b. \<not> is_write e" and
    b3: "\<forall>v. bpr = Some v \<longrightarrow>
           (\<exists>h. pre_mutation (Value ''GlobalUserDisabled'') es_b
                  = [RegQueried h ''GlobalUserDisabled'' (Inr v)])"
    by auto
  let ?es = "MadeDirs ?root (Inr ()) # es_o @ es_b @ [Ran taskkill rk]"
  have A: "events w w' = ?es @ [WroteText (manifest_path ?root)
                             (JDict [(''onedrive_run_value'', ov),
                                     (''background_previous'', bp)]) (Inr ())]"
    using ev by simp
  have B: "\<forall>e\<in>set ?es. \<not> is_write e"
    using o2 b2 by (auto simp: taskkill_def)
  have po: "pre_mutation (Value ''OneDrive'') ?es = pre_mutation (Value ''OneDrive'') es_o"
  proof -
    have "pre_mutation (Value ''OneDrive'') ([MadeDirs ?root (Inr ())] @ es_o @ (es_b @ [Ran taskkill rk]))
            = pre_mutation (Value ''OneDrive'') (es_o @ (es_b @ [Ran taskkill rk]))"
      by (rule pre_mutation_skip_left) simp
    also have "\<dots> = pre_mutation (Value ''OneDrive'') es_o"
      using b1 by (intro pre_mutation_skip_right) (auto simp: taskkill_def)
    finally show ?thesis by simp
  qed
  have pb: "pre_mutation (Value ''GlobalUserDisabled'') ?es
              = pre_mutation (Value ''GlobalUserDisabled'') es_b"
  proof -
    have "pre_mutation (Value ''GlobalUserDisabled'')
            ((MadeDirs ?root (Inr ()) # es_o) @ (es_b @ [Ran taskkill rk]))
            = pre_mutation (Value ''GlobalUserDisabled'') (es_b @ [Ran taskkill rk])"
      using o1 by (intro pre_mutation_skip_left) auto
    also have "\<dots> = pre_mutation (Value ''GlobalUserDisabled'') es_b"
      by (intro pre_mutation_skip_right) (auto simp: taskkill_def)
    finally show ?thesis by simp
  qed
  have C: "ov = JNull
          \<or> (\<exists>h v. pre_mutation (Value ''OneDrive'') ?es = [RegQueried h ''OneDrive'' (Inr v)]
                   \<and> json_of_value (Some v) = Some ov)"
    using json_of_value_null [OF jv(1)] o3 po by auto
  have D: "bp = JNull
          \<or> (\<exists>h v. pre_mutation (Value ''GlobalUserDisabled'') ?es
                      = [RegQueried h ''GlobalUserDisabled'' (Inr v)]
                   \<and> json_of_value (Some v) = Some bp)"
    using json_of_value_null [OF jv(2)] b3 pb by auto
  from A B C D show ?thesis by blast
qed

lemma max_manifest:
  assumes ap: "apply_max_performance_profile H w = (Inr r, w')" and pw: "platform w = ''win32''"
  shows "\<exists>es ss ps ov.
       events w w' = es @ [WroteText (manifest_path (max_backup_root w))
                             (JDict [(''services'', JDict ss), (''power_scheme'', ps),
                                     (''onedrive_run_value'', ov)]) (Inr ())]
     \<and> (\<forall>e\<in>set es. \<not> is_write e)
     \<and> (\<forall>(s, state)\<in>set ss. \<exists>c1 c2 st rn.
            pre_mutation (Service s) es
              = [Ran [''sc.exe'', ''qc'', s] (Inr c1), Ran [''sc.exe'', ''query'', s] (Inr c2)]
          \<and> start_type_of H c1 = Some st \<and> running_of H c2 = Some rn
          \<and> state = JDict [(''start_type'', JStr st), (''was_running'', JBool rn)])
     \<and> (ps = JNull
          \<or> (\<exists>c c' g. pre_mutation Scheme es
                        = [Ran [''powercfg'', ''/getactivescheme''] (Inr c),
                           Ran [''powercfg'', ''/list''] (Inr c')]
                     \<and> returncode c = 0 \<and> re_search H guid_pattern (stdout c) = Some g
                     \<and> ps = JStr g))
     \<and> (ov = JNull
          \<or> (\<exists>h v. pre_mutation (Value ''OneDrive'') es = [RegQueried h ''OneDrive'' (Inr v)]
                   \<and> json_of_value (Some v) = Some ov))"
proof -
  let ?root = "max_backup_root w"
  let ?a0 = "\<lparr>service_states = [], disabled = [], indexing = False, messages = []\<rparr>"
  from apply_max_decomposed [OF ap pw] obtain a es_s es_p es_o rk previous ok perrs od ovr
      oerrs stopped serrs ov w1 w2 w2' w3 w3' w4 where
    ev: "events w w' = MadeDirs ?root (Inr ()) # es_s @ es_p @ es_o
                      @ [Ran taskkill rk,
                         WroteText (manifest_path ?root)
                           (JDict [(''services'', JDict (service_states a)),
                                   (''power_scheme'', json_of_str previous),
                                   (''onedrive_run_value'', ov)]) (Inr ())]" and
    jv: "json_of_value ovr = Some ov" and
    ds: "disable_services H SERVICE_TARGETS ?a0 w1 = (Inr a, w2)" "trace w2 = trace w1 @ es_s" and
    rp: "raise_power_scheme H w2' = (Inr (previous, ok, perrs), w3)"
        "trace w3 = trace w2' @ es_p" and
    dr: "disable_onedrive_run H w3' = ((od, ovr, oerrs), w4)" "trace w4 = trace w3' @ es_o"
    by blast
  have dist: "distinct SERVICE_TARGETS" by (simp add: SERVICE_TARGETS_def)
  have init: "\<forall>n\<in>set SERVICE_TARGETS. n \<notin> set (disabled ?a0) \<and> map_of (service_states ?a0) n = None"
    by simp
  from disable_services_trace [OF ds(1) dist init] ds(2) have
    s1: "\<forall>e\<in>set es_s. \<exists>n\<in>set SERVICE_TARGETS. target_of e = Service n" and
    per: "\<forall>n\<in>set SERVICE_TARGETS. \<exists>c1 c2 tl.
           filter (\<lambda>e. target_of e = Service n) es_s
             = Ran [''sc.exe'', ''qc'', n] (Inr c1) # Ran [''sc.exe'', ''query'', n] (Inr c2) # tl
         \<and> (\<forall>e\<in>set tl. is_attempt e)
         \<and> (case (start_type_of H c1, running_of H c2) of
              (Some st, Some r) \<Rightarrow>
                 map_of (service_states a) n
                   = Some (JDict [(''start_type'', JStr st), (''was_running'', JBool r)])
                 \<and> (n \<in> set (disabled a) \<or> undisabled n \<in> set (messages a))
            | _ \<Rightarrow> tl = [] \<and> n \<notin> set (disabled a) \<and> map_of (service_states a) n = None
                   \<and> unreadable n \<in> set (messages a))" and
    out: "\<forall>k. k \<notin> set SERVICE_TARGETS \<longrightarrow> map_of (service_states a) k = None"
    by auto
  have s2: "\<forall>e\<in>set es_s. \<not> is_write e"
  proof
    fix e assume "e \<in> set es_s"
    with s1 obtain n where "target_of e = Service n" by blast
    then show "\<not> is_write e" by (cases e) auto
  qed
  from disable_services_distinct [OF ds(1)] have dk: "distinct (map fst (service_states a))"
    by simp
  from raise_power_scheme_trace [OF rp(1)] rp(2) have
    p1: "\<forall>e\<in>set es_p. target_of e = Scheme" and
    p2: "\<forall>e\<in>set es_p. \<not> is_write e" and
    p3: "\<forall>g. previous = Some g \<longrightarrow>
           (\<exists>c c'. pre_mutation Scheme es_p
                     = [Ran [''powercfg'', ''/getactivescheme''] (Inr c),
                        Ran [''powercfg'', ''/list''] (Inr c')]
                  \<and> returncode c = 0 \<and> re_search H guid_pattern (stdout c) = Some g)"
    by auto
  from disable_onedrive_run_trace [OF dr(1)] dr(2) have
    o1: "\<forall>e\<in>set es_o. target_of e = Handle \<or> target_of e = Value ''OneDrive''" and
    o2: "\<forall>e\<in>set es_o. \<not> is_write e" and
    o3: "\<forall>v. ovr = Some v \<longrightarrow>
           (\<exists>h. pre_mutation (Value ''OneDrive'') es_o = [RegQueried h ''OneDrive'' (Inr v)])"
    by auto
  let ?es = "MadeDirs ?root (Inr ()) # es_s @ es_p @ es_o @ [Ran taskkill rk]"
  have A: "events w w' = ?es @ [WroteText (manifest_path ?root)
                           (JDict [(''services'', JDict (service_states a)),
                                   (''power_scheme'', json_of_str previous),
                                   (''onedrive_run_value'', ov)]) (Inr ())]"
    using ev by simp
  have B: "\<forall>e\<in>set ?es. \<not> is_write e"
    using s2 p2 o2 by (auto simp: taskkill_def)
  have fs: "\<And>n. filter (\<lambda>e. target_of e = Service n) ?es
                  = filter (\<lambda>e. target_of e = Service n) es_s"
    using p1 o1 by (auto simp: taskkill_def filter_empty_conv)
  have C: "\<forall>(s, state)\<in>set (service_states a). \<exists>c1 c2 st rn.
            pre_mutation (Service s) ?es
              = [Ran [''sc.exe'', ''qc'', s] (Inr c1), Ran [''sc.exe'', ''query'', s] (Inr c2)]
          \<and> start_type_of H c1 = Some st \<and> running_of H c2 = Some rn
          \<and> state = JDict [(''start_type'', JStr st), (''was_running'', JBool rn)]"
  proof (intro ballI, clarify)
    fix s state assume m: "(s, state) \<in> set (service_states a)"
    with dk have ms: "map_of (service_states a) s = Some state" by simp
    with out have "s \<in> set SERVICE_TARGETS" by fastforce
    with per obtain c1 c2 tl where
      f: "filter (\<lambda>e. target_of e = Service s) es_s
            = Ran [''sc.exe'', ''qc'', s] (Inr c1) # Ran [''sc.exe'', ''query'', s] (Inr c2) # tl" and
      at: "\<forall>e\<in>set tl. is_attempt e" and
      oc: "(case (start_type_of H c1, running_of H c2) of
              (Some st, Some r) \<Rightarrow>
                 map_of (service_states a) s
                   = Some (JDict [(''start_type'', JStr st), (''was_running'', JBool r)])
                 \<and> (s \<in> set (disabled a) \<or> undisabled s \<in> set (messages a))
            | _ \<Rightarrow> tl = [] \<and> s \<notin> set (disabled a) \<and> map_of (service_states a) s = None
                   \<and> unreadable s \<in> set (messages a))"
      by blast
    from oc ms obtain st rn where
      v: "start_type_of H c1 = Some st" "running_of H c2 = Some rn"
         "state = JDict [(''start_type'', JStr st), (''was_running'', JBool rn)]"
      by (auto split: option.splits)
    have "pre_mutation (Service s) ?es
            = [Ran [''sc.exe'', ''qc'', s] (Inr c1), Ran [''sc.exe'', ''query'', s] (Inr c2)]"
      unfolding pre_mutation_def fs f using takeWhile_attempts [OF at] by simp
    with v show "\<exists>c1 c2 st rn.
            pre_mutation (Service s) ?es
              = [Ran [''sc.exe'', ''qc'', s] (Inr c1), Ran [''sc.exe'', ''query'', s] (Inr c2)]
          \<and> start_type_of H c1 = Some st \<and> running_of H c2 = Some rn
          \<and> state = JDict [(''start_type'', JStr st), (''was_running'', JBool rn)]"
      by blast
  qed
  have pp: "pre_mutation Scheme ?es = pre_mutation Scheme es_p"
  proof -
    have "pre_mutation Scheme ((MadeDirs ?root (Inr ()) # es_s) @ (es_p @ (es_o @ [Ran taskkill rk])))
            = pre_mutation Scheme (es_p @ (es_o @ [Ran taskkill rk]))"
      using s1 by (intro pre_mutation_skip_left) auto
    also have "\<dots> = pre_mutation Scheme es_p"
      using o1 by (intro pre_mutation_skip_right) (auto simp: taskkill_def)
    finally show ?thesis by simp
  qed
  have po: "pre_mutation (Value ''OneDrive'') ?es = pre_mutation (Value ''OneDrive'') es_o"
  proof -
    have "pre_mutation (Value ''OneDrive'')
            ((MadeDirs ?root (Inr ()) # es_s @ es_p) @ (es_o @ [Ran taskkill rk]))
            = pre_mutation (Value ''OneDrive'') (es_o @ [Ran taskkill rk])"
      using s1 p1 by (intro pre_mutation_skip_left) auto
    also have "\<dots> = pre_mutation (Value ''OneDrive'') es_o"
      by (intro pre_mutation_skip_right) (auto simp: taskkill_def)
    finally show ?thesis by simp
  qed
  have D: "json_of_str previous = JNull
          \<or> (\<exists>c c' g. pre_mutation Scheme ?es
                        = [Ran [''powercfg'', ''/getactivescheme''] (Inr c),
                           Ran [''powercfg'', ''/list''] (Inr c')]
                     \<and> returncode c = 0 \<and> re_search H guid_pattern (stdout c) = Some g
                     \<and> json_of_str previous = JStr g)"
    using p3 pp by (cases previous) (auto simp: json_of_str_def)
  have E: "ov = JNull
          \<or> (\<exists>h v. pre_mutation (Value ''OneDrive'') ?es = [RegQueried h ''OneDrive'' (Inr v)]
                   \<and> json_of_value (Some v) = Some ov)"
    using json_of_value_null [OF jv] o3 po by auto
  from A B C D E show ?thesis by blast
qed

text \<open>
  C1, as stated, fails: an apply call on a platform other than Windows returns its
  result without writing any manifest.
\<close>

theorem no_manifest_off_windows:
  "fst (apply_performance_profile posix_host linux_box)
     = Inr (performance_result False False False None
              [''Profil Performance disponible uniquement sur Windows.''])
   \<and> filter is_write (events linux_box (snd (apply_performance_profile posix_host linux_box))) = []
   \<and> fst (apply_max_performance_profile posix_host linux_box)
     = Inr (max_result [] False False False False None
              [''Profil Max Performance disponible uniquement sur Windows.''])
   \<and> filter is_write (events linux_box (snd (apply_max_performance_profile posix_host linux_box)))
     = []"
  by (simp add: apply_performance_profile_def apply_max_performance_profile_def
                perf_ensure_windows_def max_ensure_windows_def linux_box_def events_def)

text \<open>
  C1, amended. In every apply call of the Performance and of the MaxPerformance engine
  that passes the platform guard and returns a result, the manifest is written exactly
  once and the write is the last event of the call, after every capture and every
  mutation attempt. Every value stored is the absent marker or a value that the call
  read before its first attempt to change that target: the startup value and the
  background flag are what \<^verbatim>\<open>QueryValueEx\<close> returned before the value was deleted or
  written, a service record holds the start type and the running flag of the two
  queries made before that service was stopped or configured, and the power scheme is
  the one read before any scheme was activated.
\<close>

theorem manifest_written_once_after_attempts:
  assumes "platform w = ''win32''"
  shows "(apply_performance_profile H w = (Inr r, w') \<longrightarrow>
           (\<exists>es ov bp.
              events w w' = es @ [WroteText (manifest_path (perf_backup_root w))
                                    (JDict [(''onedrive_run_value'', ov),
                                            (''background_previous'', bp)]) (Inr ())]
            \<and> (\<forall>e\<in>set es. \<not> is_write e)
            \<and> (ov = JNull
                 \<or> (\<exists>h v. pre_mutation (Value ''OneDrive'') es
                             = [RegQueried h ''OneDrive'' (Inr v)]
                          \<and> json_of_value (Some v) = Some ov))
            \<and> (bp = JNull
                 \<or> (\<exists>h v. pre_mutation (Value ''GlobalUserDisabled'') es
                             = [RegQueried h ''GlobalUserDisabled'' (Inr v)]
                          \<and> json_of_value (Some v) = Some bp))))
       \<and> (apply_max_performance_profile H w = (Inr r', w'') \<longrightarrow>
           (\<exists>es ss ps ov.
              events w w'' = es @ [WroteText (manifest_path (max_backup_root w))
                                     (JDict [(''services'', JDict ss), (''power_scheme'', ps),
                                             (''onedrive_run_value'', ov)]) (Inr ())]
            \<and> (\<forall>e\<in>set es. \<not> is_write e)
            \<and> (\<forall>(s, state)\<in>set ss. \<exists>c1 c2 st rn.
                   pre_mutation (Service s) es
                     = [Ran [''sc.exe'', ''qc'', s] (Inr c1),
                        Ran [''sc.exe'', ''query'', s] (Inr c2)]
                 \<and> start_type_of H c1 = Some st \<and> running_of H c2 = Some rn
                 \<and> state = JDict [(''start_type'', JStr st), (''was_running'', JBool rn)])
            \<and> (ps = JNull
                 \<or> (\<exists>c c' g. pre_mutation Scheme es
                               = [Ran [''powercfg'', ''/getactivescheme''] (Inr c),
                                  Ran [''powercfg'', ''/list''] (Inr c')]
                            \<and> returncode c = 0
                            \<and> re_search H guid_pattern (stdout c) = Some g \<and> ps = JStr g))
            \<and> (ov = JNull
                 \<or> (\<exists>h v. pre_mutation (Value ''OneDrive'') es
                             = [RegQueried h ''OneDrive'' (Inr v)]
                          \<and> json_of_value (Some v) = Some ov))))"
  using assms performance_manifest [of H w r w'] max_manifest [of H w r' w'']
  by blast

theorem manifest_written_once_after_attempts_witness:
  "platform windows_box = ''win32''
   \<and> (\<exists>r w' es m. apply_performance_profile win_host windows_box = (Inr r, w')
         \<and> events windows_box w'
             = es @ [WroteText (manifest_path (perf_backup_root windows_box)) m (Inr ())]
         \<and> filter is_write (events windows_box w')
             = [WroteText (manifest_path (perf_backup_root windows_box)) m (Inr ())])
   \<and> (\<exists>r w' es m. apply_max_performance_profile win_host windows_box = (Inr r, w')
         \<and> events windows_box w'
             = es @ [WroteText (manifest_path (max_backup_root windows_box)) m (Inr ())]
         \<and> filter is_write (events windows_box w')
             = [WroteText (manifest_path (max_backup_root windows_box)) m (Inr ())])"
proof -
  have p: "platform windows_box = ''win32''"
    by (simp add: windows_box_def)
  have "\<exists>r w'. apply_performance_profile win_host windows_box = (Inr r, w')"
    by (simp add: run_defs Let_def cong: run_congs)
  then obtain r w' where a: "apply_performance_profile win_host windows_box = (Inr r, w')"
    by blast
  have "\<exists>r w'. apply_max_performance_profile win_host windows_box = (Inr r, w')"
    by (simp add: run_defs Let_def cong: run_congs)
  then obtain r' w'' where b: "apply_max_performance_profile win_host windows_box = (Inr r', w'')"
    by blast
  from manifest_written_once_after_attempts [OF p, of win_host r w' r' w''] a b
  obtain es m es' m' where
    1: "events windows_box w'
          = es @ [WroteText (manifest_path (perf_backup_root windows_box)) m (Inr ())]"
       "\<forall>e\<in>set es. \<not> is_write e" and
    2: "events windows_box w''
          = es' @ [WroteText (manifest_path (max_backup_root windows_box)) m' (Inr ())]"
       "\<forall>e\<in>set es'. \<not> is_write e"
    by blast
  from 1 have 3: "filter is_write (events windows_box w')
          = [WroteText (manifest_path (perf_backup_root windows_box)) m (Inr ())]"
    by (simp add: filter_empty_conv [THEN iffD2])
  from 2 have 4: "filter is_write (events windows_box w'')
          = [WroteText (manifest_path (max_backup_root windows_box)) m' (Inr ())]"
    by (simp add: filter_empty_conv [THEN iffD2])
  from p a b 1 2 3 4 show ?thesis by blast
qed

section \<open>What a call creates in the file system\<close>






lemma within_refl: "within p p"
  by (simp add: within_def same_anchor_def)















lemma nodes_is_dir: "nodes w' = nodes w \<Longrightarrow> is_dir w' p = is_dir w p"
  by (simp add: is_dir_def lookup_def)















end
